theory Spec2Isabelle
  imports Main
begin

section \<open>Data egress service: data model\<close>

text \<open>
  The embedding follows \<^verbatim>\<open>data-egress-service.js\<close>. Every method of
  \<^verbatim>\<open>DataEgressService\<close> becomes a function that takes the state of the
  collaborators (record table, object storage, bucket policy, notification topic,
  audit log) and returns the result together with the state it leaves behind. A thrown
  error is the \<open>Inl\<close> branch of the result; the state returned with it is the state at
  the moment of the throw, since nothing in the service rolls back.
\<close>

datatype error =
    Forbidden string
  | BadRequest string
  | NotFound string
  | InternalError string
  | TypeError string
  | ExternalFailure string

text \<open>
  A timestamp field holds either the string produced by calling
  \<^verbatim>\<open>new Date().toISOString()\<close> or the method \<^verbatim>\<open>toISOString\<close> itself, when the
  source reads the property without calling it.
\<close>

datatype time_field = IsoString string | ToISOStringFunction

text \<open>The item kept in the table \<^verbatim>\<open>dbEgressStore\<close> (the \<^verbatim>\<open>dbObject\<close> of the source).\<close>

record egress_store_info =
  id' :: string
  egressStoreName :: string
  createdAt :: time_field
  createdBy :: string
  workspaceId :: string
  projectId :: string
  s3BucketName :: string
  s3BucketPath :: string
  status :: string
  updatedBy :: "string option"
  updatedAt :: time_field
  ver :: int
  isAbleToSubmitEgressRequest :: bool
  egressStoreObjectListLocation :: "string option"

record environment =
  env_id :: string
  env_name :: string
  env_createdBy :: string
  env_projectId :: string

text \<open>
  The request context: \<^verbatim>\<open>principalIdentifier.uid\<close> read with \<^verbatim>\<open>_.get\<close>
  (absent is \<open>None\<close>) and the answer of \<^verbatim>\<open>isAdmin(requestContext)\<close>.
\<close>

record requestContext =
  uid :: "string option"
  isAdmin :: bool

record envPermission =
  p_read :: bool
  p_write :: bool

text \<open>The descriptor \<^verbatim>\<open>egressStore\<close> built by create and terminate.\<close>

record egressStore =
  d_id :: string
  d_readable :: bool
  d_writeable :: bool
  d_kmsArn :: "string option"
  d_bucket :: string
  d_prefix :: string
  d_envPermission :: envPermission
  d_status :: string
  d_createdBy :: string
  d_workspaceId :: string
  d_projectId :: string
  d_resources :: "string list"

record s3object =
  Bucket :: string
  Key :: string
  Size :: nat
  LastModified :: int

text \<open>An entry of \<^verbatim>\<open>objectList\<close> as \<^verbatim>\<open>getEgressStore\<close> returns it.\<close>

record listed_object =
  l_Key :: string
  l_Size :: string
  l_LastModified :: int
  l_projectId :: string
  l_workspaceId :: string

record egress_listing =
  objectList :: "listed_object list"
  l_isAbleToSubmitEgressRequest :: bool

text \<open>An entry of the manifest written by \<^verbatim>\<open>prepareEgressStoreSnapshot\<close>.\<close>

record manifest_entry =
  m_object :: s3object
  m_VersionId :: string
  m_Owner :: string

record manifest =
  m_Bucket :: string
  m_Key :: string
  m_objects :: "manifest_entry list"

record message =
  msg_egressStoreObjectListLocation :: string
  msg_id :: string
  egress_store_id :: string
  egress_store_name :: string
  created_at :: time_field
  created_by :: string
  workspace_id :: string
  project_id :: string
  s3_bucketname :: string
  s3_bucketpath :: string
  msg_status :: string
  updated_by :: "string option"
  updated_at :: time_field
  msg_ver :: int

subsection \<open>Policy statements\<close>

text \<open>
  Modelled from the spec: the helper module \<^verbatim>\<open>../helpers/utils\<close>
  (\<^verbatim>\<open>getStatementParamsFn\<close>, \<^verbatim>\<open>putStatementParamsFn\<close>, \<^verbatim>\<open>listStatementParamsFn\<close>,
  \<^verbatim>\<open>getRevisedS3Statements\<close>, \<^verbatim>\<open>addAccountToStatement\<close>,
  \<^verbatim>\<open>removeAccountFromStatement\<close>, \<^verbatim>\<open>updateS3BucketPolicy\<close>) is not part of the
  sources. A policy statement has the fields of the spec's data model: a statement id
  derived from the store's prefix and the action kind, the effect, the action, the
  resource pattern scoped to the prefix, and a set of principals.
\<close>

datatype action_kind = GetObject | PutObject | ListBucket

record policy_statement =
  statementId :: string
  effect :: string
  actions :: action_kind
  resource :: string
  principals :: "string set"

record statement_params =
  p_statementId :: string
  p_resource :: string
  p_actions :: action_kind

datatype audit_body =
    BodyText string
  | BodyStore egressStore
  | BodyPolicy "policy_statement list"
  | BodyMessage message

record audit_event =
  action :: string
  body :: audit_body

subsection \<open>The collaborators' state\<close>

text \<open>
  Settings, the table, the object storage, the bucket policy, what has been published
  and audited, the answers of the services the source only calls (schema validation,
  member account lookup, KMS, object versions, clock, UUID generator), and the faults of
  the calls that the source guards or lets propagate.
\<close>

record world =
  enableEgressStore :: string
  egressStoreBucketName :: string
  egressNotificationBucketName :: string
  egressNotificationSnsTopicArn :: string
  dbEgressStore :: "egress_store_info list"
  objects :: "s3object list"
  bucketPolicy :: "policy_statement list"
  manifests :: "manifest list"
  published :: "(string \<times> message) list"
  auditLog :: "audit_event list"
  schemaValid :: "environment \<Rightarrow> bool"
  memberAccount :: "string \<Rightarrow> string option"
  kmsKeyArn :: "string option"
  latestVersion :: "string \<Rightarrow> string \<Rightarrow> string \<times> string"
  nowIso :: string
  nowMillis :: int
  uuidV4 :: string
  scanFails :: bool
  clearPathFails :: bool
  createPathFails :: bool
  snapshotFails :: bool
  listObjectsFails :: bool
  publishFails :: bool
  policyStoreFails :: bool

section \<open>Strings\<close>

text \<open>
  \<^verbatim>\<open>String.prototype.toUpperCase\<close> on the ASCII letters; every other character is
  kept. The status codes and the setting compared with it are ASCII.
\<close>

definition upperChar :: "char \<Rightarrow> char" where
  "upperChar c =
     (let n = (of_char c :: nat)
      in if 97 \<le> n \<and> n \<le> 122 then char_of (n - 32) else c)"

definition toUpperCase :: "string \<Rightarrow> string" where
  "toUpperCase s = map upperChar s"

definition startsWith :: "string \<Rightarrow> string \<Rightarrow> bool" where
  "startsWith s p = (take (length p) s = p)"

text \<open>\<^verbatim>\<open>s.split('/')\<close>: the pieces between the slashes, at least one piece.\<close>

fun splitSlash :: "string \<Rightarrow> string list" where
  "splitSlash [] = [[]]"
| "splitSlash (c # cs) =
     (if c = CHR ''/'' then [] # splitSlash cs
      else (case splitSlash cs of
              [] \<Rightarrow> [[c]]
            | p # ps \<Rightarrow> (c # p) # ps))"

text \<open>Decimal rendering of a number in a template string.\<close>

fun showNat :: "nat \<Rightarrow> string" where
  "showNat n =
     (if n < 10 then [char_of (48 + n)]
      else showNat (n div 10) @ [char_of (48 + n mod 10)])"

declare showNat.simps [simp del]

definition showInt :: "int \<Rightarrow> string" where
  "showInt i = (if i < 0 then CHR ''-'' # showNat (nat (- i)) else showNat (nat i))"

definition quoted :: "string \<Rightarrow> string" where
  "quoted s = [CHR 0x22] @ s @ [CHR 0x22]"

definition PROCESSING_STATUS_CODE :: string where
  "PROCESSING_STATUS_CODE = ''PROCESSING''"

definition PROCESSED_STATUS_CODE :: string where
  "PROCESSED_STATUS_CODE = ''PROCESSED''"

definition TERMINATED_STATUS_CODE :: string where
  "TERMINATED_STATUS_CODE = ''TERMINATED''"

definition CREATED_STATUS_CODE :: string where
  "CREATED_STATUS_CODE = ''CREATED''"

definition PENDING_STATUS_CODE :: string where
  "PENDING_STATUS_CODE = ''PENDING''"

text \<open>
  \<^verbatim>\<open>!enableEgressStore || enableEgressStore.toUpperCase() !== 'TRUE'\<close> is the
  disabled case of every operation.
\<close>

definition featureEnabled :: "world \<Rightarrow> bool" where
  "featureEnabled w =
     (\<not> (enableEgressStore w = [] \<or> toUpperCase (enableEgressStore w) \<noteq> ''TRUE''))"

section \<open>Policy reconciliation helpers\<close>

text \<open>
  Modelled from the spec: the three statement parameter functions of
  \<^verbatim>\<open>../helpers/utils\<close>. The statement id is derived from the action kind and the
  store's prefix; the resource is the path pattern under the prefix.
\<close>

definition getStatementParamsFn :: "string \<Rightarrow> string \<Rightarrow> statement_params" where
  "getStatementParamsFn bucket prefix =
     \<lparr>p_statementId = ''Get:'' @ prefix,
      p_resource = ''arn:aws:s3:::'' @ bucket @ ''/'' @ prefix @ ''*'',
      p_actions = GetObject\<rparr>"

definition putStatementParamsFn :: "string \<Rightarrow> string \<Rightarrow> statement_params" where
  "putStatementParamsFn bucket prefix =
     \<lparr>p_statementId = ''Put:'' @ prefix,
      p_resource = ''arn:aws:s3:::'' @ bucket @ ''/'' @ prefix @ ''*'',
      p_actions = PutObject\<rparr>"

definition listStatementParamsFn :: "string \<Rightarrow> string \<Rightarrow> statement_params" where
  "listStatementParamsFn bucket prefix =
     \<lparr>p_statementId = ''List:'' @ prefix,
      p_resource = ''arn:aws:s3:::'' @ bucket @ ''/'' @ prefix @ ''*'',
      p_actions = ListBucket\<rparr>"

text \<open>
  Modelled from the spec: the statement synthesized when none is located (``if absent,
  synthesize an empty one'').
\<close>

definition createAllowStatement :: "statement_params \<Rightarrow> policy_statement" where
  "createAllowStatement params =
     \<lparr>statementId = p_statementId params,
      effect = ''Allow'',
      actions = p_actions params,
      resource = p_resource params,
      principals = {}\<rparr>"

text \<open>
  Modelled from the spec: \<^verbatim>\<open>addAccountToStatement\<close> of \<^verbatim>\<open>../helpers/utils\<close>
  (``add accountId to its principal set; set union'').
\<close>

definition addAccountToStatement :: "policy_statement \<Rightarrow> string \<Rightarrow> policy_statement" where
  "addAccountToStatement oldStatement memberAccountId =
     oldStatement\<lparr>principals := insert memberAccountId (principals oldStatement)\<rparr>"

text \<open>
  Modelled from the spec: \<^verbatim>\<open>removeAccountFromStatement\<close> of \<^verbatim>\<open>../helpers/utils\<close>
  (``remove accountId from each statement's principal set'').
\<close>

definition removeAccountFromStatement :: "policy_statement \<Rightarrow> string \<Rightarrow> policy_statement" where
  "removeAccountFromStatement oldStatement memberAccountId =
     oldStatement\<lparr>principals := principals oldStatement - {memberAccountId}\<rparr>"

text \<open>
  Modelled from the spec: \<^verbatim>\<open>getRevisedS3Statements\<close> of \<^verbatim>\<open>../helpers/utils\<close>.
  For each parameter function, in the order given, the statement with the derived id is
  located in the document (the first one with that id), an empty one is synthesized when
  there is none, and the update is applied to it.
\<close>

definition getRevisedS3Statements ::
  "policy_statement list \<Rightarrow> egressStore \<Rightarrow> string \<Rightarrow>
   (string \<Rightarrow> string \<Rightarrow> statement_params) list \<Rightarrow>
   (policy_statement \<Rightarrow> policy_statement) \<Rightarrow> policy_statement list" where
  "getRevisedS3Statements s3Policy studyEntity bucket statementParamFunctions updateStatementFn =
     map (\<lambda>statementParameterFn.
            let statementParams = statementParameterFn bucket (d_prefix studyEntity)
            in updateStatementFn
                 (case find (\<lambda>s. statementId s = p_statementId statementParams) s3Policy of
                    Some oldStatement \<Rightarrow> oldStatement
                  | None \<Rightarrow> createAllowStatement statementParams))
         statementParamFunctions"

text \<open>
  Modelled from the spec: \<^verbatim>\<open>updateS3BucketPolicy\<close> of \<^verbatim>\<open>../helpers/utils\<close>, the
  document handed to \<^verbatim>\<open>putBucketPolicy\<close>. A statement of the document whose id is the
  id of a revised statement is replaced by the revised one where it stands, or dropped
  when the revised principal set is empty; a revised statement with a new id and a
  non-empty principal set is added at the end; every other statement is kept as it is.
\<close>

definition updateS3BucketPolicy ::
  "policy_statement list \<Rightarrow> policy_statement list \<Rightarrow> policy_statement list" where
  "updateS3BucketPolicy s3Policy revisedStatements =
     concat (map (\<lambda>s. case find (\<lambda>r. statementId r = statementId s) revisedStatements of
                         None \<Rightarrow> [s]
                       | Some r \<Rightarrow> (if principals r = {} then [] else [r]))
                 s3Policy)
     @ filter (\<lambda>r. statementId r \<notin> set (map statementId s3Policy) \<and> principals r \<noteq> {})
              revisedStatements"

section \<open>The service\<close>

definition audit :: "world \<Rightarrow> requestContext \<Rightarrow> audit_event \<Rightarrow> world" where
  "audit w requestContext auditEvent = w\<lparr>auditLog := auditLog w @ [auditEvent]\<rparr>"

text \<open>
  \<^verbatim>\<open>getEgressStoreInfo\<close>: scan with limit 1000, keep the items of the workspace; none
  is \<^verbatim>\<open>null\<close>, more than one is an internal error, a failing scan is rethrown as
  not-found.
\<close>

definition getEgressStoreInfo :: "world \<Rightarrow> string \<Rightarrow> error + egress_store_info option" where
  "getEgressStoreInfo w environmentId =
     (if scanFails w then Inl (NotFound ''Error in fetch egress store info'')
      else
        (case filter (\<lambda>store. workspaceId store = environmentId) (take 1000 (dbEgressStore w)) of
           [] \<Rightarrow> Inr None
         | [store] \<Rightarrow> Inr (Some store)
         | _ \<Rightarrow> Inl (InternalError
             ''Error in getting egress store info: multiple results fetched from egrss store table'')))"

definition getMemberAccountId :: "world \<Rightarrow> requestContext \<Rightarrow> string \<Rightarrow> error + string" where
  "getMemberAccountId w requestContext environmentId =
     (case memberAccount w environmentId of
        None \<Rightarrow> Inl (NotFound (''environmentSc with id '' @ quoted environmentId @ '' does not exist''))
      | Some accountId \<Rightarrow> Inr accountId)"

definition getKmsKeyIdArn :: "world \<Rightarrow> error + string" where
  "getKmsKeyIdArn w =
     (case kmsKeyArn w of
        None \<Rightarrow> Inl (ExternalFailure ''describeKey'')
      | Some arn \<Rightarrow> Inr arn)"

definition getS3BucketAndPolicy :: "world \<Rightarrow> error + string \<times> policy_statement list" where
  "getS3BucketAndPolicy w =
     (if policyStoreFails w then Inl (ExternalFailure ''getBucketPolicy'')
      else Inr (egressStoreBucketName w, bucketPolicy w))"

definition addEgressStoreBucketPolicy ::
  "world \<Rightarrow> requestContext \<Rightarrow> egressStore \<Rightarrow> string \<Rightarrow> (error + unit) \<times> world" where
  "addEgressStoreBucketPolicy w requestContext egressStore memberAccountId =
     (case getS3BucketAndPolicy w of
        Inl e \<Rightarrow> (Inl e, w)
      | Inr (bucketName, s3Policy) \<Rightarrow>
          let statementParamFunctions =
                (if p_read (d_envPermission egressStore) then [getStatementParamsFn] else [])
                @ (if p_write (d_envPermission egressStore) then [putStatementParamsFn] else [])
                @ (if p_read (d_envPermission egressStore) \<or> p_write (d_envPermission egressStore)
                   then [listStatementParamsFn] else []);
              revisedStatements =
                getRevisedS3Statements s3Policy egressStore bucketName statementParamFunctions
                  (\<lambda>oldStatement. addAccountToStatement oldStatement memberAccountId);
              s3Policy' = updateS3BucketPolicy s3Policy revisedStatements
          in (Inr (),
              audit (w\<lparr>bucketPolicy := s3Policy'\<rparr>) requestContext
                \<lparr>action = ''add-egress-store-to-bucket-policy'', body = BodyPolicy s3Policy'\<rparr>))"

definition removeEgressStoreBucketPolicy ::
  "world \<Rightarrow> requestContext \<Rightarrow> egressStore \<Rightarrow> string \<Rightarrow> (error + unit) \<times> world" where
  "removeEgressStoreBucketPolicy w requestContext egressStore memberAccountId =
     (case getS3BucketAndPolicy w of
        Inl e \<Rightarrow> (Inl e, w)
      | Inr (bucketName, s3Policy) \<Rightarrow>
          let statementParamFunctions =
                [getStatementParamsFn, putStatementParamsFn, listStatementParamsFn];
              revisedStatement =
                getRevisedS3Statements s3Policy egressStore bucketName statementParamFunctions
                  (\<lambda>oldStatement. removeAccountFromStatement oldStatement memberAccountId);
              s3Policy' = updateS3BucketPolicy s3Policy revisedStatement
          in (Inr (),
              audit (w\<lparr>bucketPolicy := s3Policy'\<rparr>) requestContext
                \<lparr>action = ''remove-egress-store-from-bucket-policy'', body = BodyPolicy s3Policy'\<rparr>))"

text \<open>
  \<^verbatim>\<open>lockAndUpdate\<close>: the write is conditional on \<^verbatim>\<open>attribute_exists(id)\<close>; the
  failed condition is rethrown by \<^verbatim>\<open>runAndCatch\<close> as a bad request. The lock is held
  by this call alone: the model runs one operation at a time.
\<close>

definition lockAndUpdate ::
  "world \<Rightarrow> string \<Rightarrow> string \<Rightarrow> egress_store_info \<Rightarrow> (error + unit) \<times> world" where
  "lockAndUpdate w lockId dbKey dbObject =
     (if \<exists>item \<in> set (dbEgressStore w). id' item = dbKey
      then (Inr (),
            w\<lparr>dbEgressStore :=
                 map (\<lambda>item. if id' item = dbKey then dbObject else item) (dbEgressStore w)\<rparr>)
      else (Inl (BadRequest (''Egress Store with id '' @ quoted dbKey @ '' got updating error'')), w))"

definition enableEgressStoreSubmission ::
  "world \<Rightarrow> egress_store_info \<Rightarrow> (error + unit) \<times> world" where
  "enableEgressStoreSubmission w egressStoreInfo =
     (let egressStoreDdbLockId = ''egress-store-ddb-access-'' @ id' egressStoreInfo
      in lockAndUpdate w egressStoreDdbLockId (id' egressStoreInfo)
           (egressStoreInfo\<lparr>isAbleToSubmitEgressRequest := True\<rparr>))"

subsection \<open>Object storage\<close>

text \<open>
  The calls of \<^verbatim>\<open>s3Service\<close>: \<^verbatim>\<open>createPath\<close> puts the empty folder object,
  \<^verbatim>\<open>clearPath\<close> deletes every object under the prefix, \<^verbatim>\<open>listAllObjects\<close> returns
  the objects under the prefix.
\<close>

definition createPath :: "world \<Rightarrow> string \<Rightarrow> string \<Rightarrow> world" where
  "createPath w bucketName folderName =
     (if createPathFails w then w
      else w\<lparr>objects :=
                filter (\<lambda>obj. \<not> (Bucket obj = bucketName \<and> Key obj = folderName)) (objects w)
                @ [\<lparr>Bucket = bucketName, Key = folderName, Size = 0,
                    LastModified = nowMillis w\<rparr>]\<rparr>)"

definition clearPath :: "world \<Rightarrow> string \<Rightarrow> string \<Rightarrow> world" where
  "clearPath w bucketName path =
     w\<lparr>objects :=
         filter (\<lambda>obj. \<not> (Bucket obj = bucketName \<and> startsWith (Key obj) path)) (objects w)\<rparr>"

definition listAllObjects :: "world \<Rightarrow> string \<Rightarrow> string \<Rightarrow> s3object list" where
  "listAllObjects w bucketName pfx =
     filter (\<lambda>obj. Bucket obj = bucketName \<and> startsWith (Key obj) pfx) (objects w)"

subsection \<open>Create\<close>

text \<open>
  \<^verbatim>\<open>createEgressStore\<close>. The call of \<^verbatim>\<open>createPath\<close> is not awaited, so its failure
  never reaches the \<^verbatim>\<open>catch\<close>. \<^verbatim>\<open>creationTime\<close> is the property
  \<^verbatim>\<open>new Date().toISOString\<close>, read and not called. The conditional write
  \<^verbatim>\<open>attribute_not_exists(id)\<close> fails when an item with the key is in the table.
\<close>

definition createEgressStore ::
  "world \<Rightarrow> requestContext \<Rightarrow> environment \<Rightarrow> (error + egressStore) \<times> world" where
  "createEgressStore w requestContext environment =
     (let by = uid requestContext in
      if \<not> featureEnabled w
      then (Inl (Forbidden ''Unable to create Egress store since this feature is disabled''), w)
      else if \<not> schemaValid w environment
      then (Inl (BadRequest ''Input has validation errors''), w)
      else
        let bucketName = egressStoreBucketName w;
            folderName = env_id environment @ ''/'';
            w1 = createPath w bucketName folderName;
            egressStoreId = env_id environment;
            creationTime = ToISOStringFunction;
            dbObject =
              \<lparr>id' = egressStoreId,
               egressStoreName = env_name environment @ ''-egress-store'',
               createdAt = creationTime,
               createdBy = env_createdBy environment,
               workspaceId = env_id environment,
               projectId = env_projectId environment,
               s3BucketName = bucketName,
               s3BucketPath = folderName,
               status = CREATED_STATUS_CODE,
               updatedBy = by,
               updatedAt = creationTime,
               ver = 0,
               isAbleToSubmitEgressRequest = False,
               egressStoreObjectListLocation = None\<rparr>
        in
          if \<exists>item \<in> set (dbEgressStore w1). id' item = egressStoreId
          then (Inl (BadRequest
                       (''Egress Store with id '' @ quoted egressStoreId @ '' already exists'')), w1)
          else
            let w2 = w1\<lparr>dbEgressStore := dbEgressStore w1 @ [dbObject]\<rparr> in
            (case getKmsKeyIdArn w2 of
               Inl e \<Rightarrow> (Inl e, w2)
             | Inr kmsArn \<Rightarrow>
                 let egressStore =
                       \<lparr>d_id = ''egress-store-'' @ env_id environment,
                        d_readable = True,
                        d_writeable = True,
                        d_kmsArn = Some kmsArn,
                        d_bucket = bucketName,
                        d_prefix = folderName,
                        d_envPermission = \<lparr>p_read = True, p_write = True\<rparr>,
                        d_status = ''reachable'',
                        d_createdBy = env_createdBy environment,
                        d_workspaceId = env_id environment,
                        d_projectId = env_projectId environment,
                        d_resources =
                          [''arn:aws:s3:::'' @ bucketName @ ''/'' @ env_id environment @ ''/'']\<rparr>
                 in
                   (case getMemberAccountId w2 requestContext (env_id environment) of
                      Inl e \<Rightarrow> (Inl e, w2)
                    | Inr memberAccountId \<Rightarrow>
                        (case addEgressStoreBucketPolicy w2 requestContext egressStore
                                memberAccountId of
                           (Inl e, w3) \<Rightarrow> (Inl e, w3)
                         | (Inr u, w3) \<Rightarrow> (Inr egressStore, w3)))))"

subsection \<open>Terminate\<close>

definition terminateEgressStore ::
  "world \<Rightarrow> requestContext \<Rightarrow> string \<Rightarrow> (error + egress_store_info option) \<times> world" where
  "terminateEgressStore w requestContext environmentId =
     (let curUser = uid requestContext in
      if \<not> featureEnabled w
      then (Inl (Forbidden ''Unable to terminate Egress store since this feature is disabled''), w)
      else
        (case getEgressStoreInfo w environmentId of
           Inl e \<Rightarrow> (Inl e, w)
         | Inr None \<Rightarrow>
             (Inr None,
              audit w requestContext
                \<lparr>action = ''terminated-egress-store'',
                 body = BodyText ''No egress store found to be terminated''\<rparr>)
         | Inr (Some egressStoreInfo) \<Rightarrow>
             let isEgressStoreOwner = (Some (createdBy egressStoreInfo) = curUser) in
             if \<not> isAdmin requestContext \<and> \<not> isEgressStoreOwner
             then (Inl (Forbidden
                    ''You are not authorized to terminate the egress store. Please contact your administrator.''), w)
             else
               let egressStoreStatus = status egressStoreInfo;
                   isEgressStoreNotTouched =
                     (toUpperCase egressStoreStatus = CREATED_STATUS_CODE
                      \<and> isAbleToSubmitEgressRequest egressStoreInfo = False)
               in
                 if toUpperCase egressStoreStatus = PROCESSING_STATUS_CODE
                 then (Inl (Forbidden
                        (''Egress store: '' @ id' egressStoreInfo
                         @ '' is still in processing. The egress store is not terminated and the workspce can not be terminated before egress request is processed.'')), w)
                 else if toUpperCase egressStoreStatus = PROCESSED_STATUS_CODE
                         \<or> isEgressStoreNotTouched
                 then
                   if clearPathFails w
                   then (Inl (BadRequest
                          (''Error in deleting egress store:'' @ s3BucketName egressStoreInfo
                           @ '' in bucket: '' @ s3BucketPath egressStoreInfo)), w)
                   else
                     let w1 = clearPath w (s3BucketName egressStoreInfo)
                                (s3BucketPath egressStoreInfo);
                         egressStoreDdbLockId =
                           ''egress-store-ddb-access-'' @ id' egressStoreInfo;
                         egressStoreInfo' =
                           egressStoreInfo
                             \<lparr>status := TERMINATED_STATUS_CODE,
                              updatedBy := curUser,
                              updatedAt := IsoString (nowIso w1),
                              isAbleToSubmitEgressRequest := False\<rparr>
                     in
                       (case lockAndUpdate w1 egressStoreDdbLockId (id' egressStoreInfo')
                               egressStoreInfo' of
                          (Inl e, w2) \<Rightarrow> (Inl e, w2)
                        | (Inr u, w2) \<Rightarrow>
                            let egressStore =
                                  \<lparr>d_id = ''egress-store-'' @ environmentId,
                                   d_readable = True,
                                   d_writeable = True,
                                   d_kmsArn = None,
                                   d_bucket = s3BucketName egressStoreInfo',
                                   d_prefix = s3BucketPath egressStoreInfo',
                                   d_envPermission = \<lparr>p_read = True, p_write = True\<rparr>,
                                   d_status = ''reachable'',
                                   d_createdBy = createdBy egressStoreInfo',
                                   d_workspaceId = environmentId,
                                   d_projectId = projectId egressStoreInfo',
                                   d_resources =
                                     [''arn:aws:s3:::'' @ s3BucketName egressStoreInfo' @ ''/''
                                      @ environmentId @ ''/'']\<rparr>
                            in
                              (case getMemberAccountId w2 requestContext environmentId of
                                 Inl e \<Rightarrow> (Inl e, w2)
                               | Inr memberAccountId \<Rightarrow>
                                   (case removeEgressStoreBucketPolicy w2 requestContext
                                           egressStore memberAccountId of
                                      (Inl e, w3) \<Rightarrow> (Inl e, w3)
                                    | (Inr u', w3) \<Rightarrow>
                                        (Inr (Some egressStoreInfo'),
                                         audit w3 requestContext
                                           \<lparr>action = ''terminated-egress-store'',
                                            body = BodyStore egressStore\<rparr>))))
                 else (Inr (Some egressStoreInfo), w)))"

subsection \<open>Listing\<close>

definition sizes :: "string list" where
  "sizes = [''Bytes'', ''KB'', ''MB'', ''GB'', ''TB'', ''PB'']"

text \<open>
  \<^verbatim>\<open>Math.round(bytes / 1024 ** i, 2)\<close>: the second argument is ignored, the quotient
  is rounded to the nearest integer, halves upwards. \<^verbatim>\<open>Size\<close> is an object length,
  below \<open>2 ^ 53\<close>, where the division by a power of two is exact.
\<close>

definition roundedQuotient :: "nat \<Rightarrow> int \<Rightarrow> nat" where
  "roundedQuotient bytes i =
     (if 0 \<le> i then (2 * bytes + 1024 ^ nat i) div (2 * 1024 ^ nat i)
      else bytes * 1024 ^ nat (- i))"

text \<open>
  \<^verbatim>\<open>bytesToSize\<close>. The index
  \<^verbatim>\<open>parseInt(Math.floor(Math.log(bytes) / Math.log(1024)), 10)\<close> is computed by the
  platform in floating point; it is the parameter \<open>floorLog1024\<close>. An index outside
  \<^verbatim>\<open>sizes\<close> prints as \<^verbatim>\<open>undefined\<close>.
\<close>

definition bytesToSize :: "(nat \<Rightarrow> int) \<Rightarrow> nat \<Rightarrow> string" where
  "bytesToSize floorLog1024 bytes =
     (if bytes = 0 then ''0 Byte''
      else
        let i0 = floorLog1024 bytes;
            i = (if i0 \<le> 5 then i0 else 5)
        in showNat (roundedQuotient bytes i) @ '' ''
           @ (if 0 \<le> i then sizes ! nat i else ''undefined''))"

text \<open>
  The body of the \<^verbatim>\<open>_.forEach\<close> of \<^verbatim>\<open>getEgressStore\<close>: an object is pushed when
  \<^verbatim>\<open>obj.Key.split('/')[1]\<close> is a non-empty string, which becomes its key.
\<close>

definition listedObject ::
  "(nat \<Rightarrow> int) \<Rightarrow> egress_store_info \<Rightarrow> s3object \<Rightarrow> listed_object option" where
  "listedObject floorLog1024 egressStoreInfo obj =
     (case splitSlash (Key obj) of
        p0 # p1 # rest \<Rightarrow>
          (if p1 = [] then None
           else Some \<lparr>l_Key = p1,
                      l_Size = bytesToSize floorLog1024 (Size obj),
                      l_LastModified = LastModified obj,
                      l_projectId = projectId egressStoreInfo,
                      l_workspaceId = workspaceId egressStoreInfo\<rparr>)
      | _ \<Rightarrow> None)"

text \<open>
  \<^verbatim>\<open>getEgressStore\<close>. The record is dereferenced (\<^verbatim>\<open>egressStoreInfo.createdBy\<close>)
  before anything tests it for \<^verbatim>\<open>null\<close>. \<^verbatim>\<open>Array.prototype.sort\<close> is stable; the
  comparator is the difference of the modification times.
\<close>

definition getEgressStore ::
  "(nat \<Rightarrow> int) \<Rightarrow> world \<Rightarrow> requestContext \<Rightarrow> string \<Rightarrow> error + egress_listing" where
  "getEgressStore floorLog1024 w requestContext environmentId =
     (if \<not> featureEnabled w
      then Inl (Forbidden
             ''Unable to list objects in egress store since this feature is disabled'')
      else
        let curUser = uid requestContext in
        (case getEgressStoreInfo w environmentId of
           Inl e \<Rightarrow> Inl e
         | Inr None \<Rightarrow> Inl (TypeError ''Cannot read property createdBy of null'')
         | Inr (Some egressStoreInfo) \<Rightarrow>
             let isEgressStoreOwner = (Some (createdBy egressStoreInfo) = curUser) in
             if \<not> isAdmin requestContext \<and> \<not> isEgressStoreOwner
             then Inl (Forbidden
                    ''You are not authorized to perform egress store list. Please contact your administrator for more information.'')
             else if listObjectsFails w then Inl (ExternalFailure ''listAllObjects'')
             else
               let objectList =
                     sort_key LastModified
                       (listAllObjects w (s3BucketName egressStoreInfo)
                          (s3BucketPath egressStoreInfo));
                   result = List.map_filter (listedObject floorLog1024 egressStoreInfo) objectList;
                   result = (if length result > 100 then take 100 result else result)
               in Inr \<lparr>objectList = result,
                       l_isAbleToSubmitEgressRequest =
                         isAbleToSubmitEgressRequest egressStoreInfo\<rparr>))"

subsection \<open>Submit\<close>

definition prepareEgressStoreSnapshot ::
  "world \<Rightarrow> egress_store_info \<Rightarrow> (error + string \<times> string) \<times> world" where
  "prepareEgressStoreSnapshot w egressStoreInfo =
     (let notificationBucket = egressNotificationBucketName w;
          curVersion = ver egressStoreInfo + 1;
          key = id' egressStoreInfo @ ''/'' @ egressStoreName egressStoreInfo @ ''-ver''
                @ showInt curVersion @ ''.json''
      in
        if listObjectsFails w \<or> snapshotFails w
        then (Inl (BadRequest
                (''Error in preparing EgressStoreSnapshot, bucket:'' @ notificationBucket
                 @ '', key: '' @ key)), w)
        else
          let objectList =
                map (\<lambda>obj. \<lparr>m_object = obj,
                            m_VersionId =
                              fst (latestVersion w (s3BucketName egressStoreInfo) (Key obj)),
                            m_Owner =
                              snd (latestVersion w (s3BucketName egressStoreInfo) (Key obj))\<rparr>)
                    (listAllObjects w (s3BucketName egressStoreInfo)
                       (s3BucketPath egressStoreInfo))
          in (Inr (notificationBucket, key),
              w\<lparr>manifests :=
                   manifests w
                   @ [\<lparr>m_Bucket = notificationBucket, m_Key = key, m_objects = objectList\<rparr>]\<rparr>))"

text \<open>
  \<^verbatim>\<open>notifySNS\<close>. The record is dereferenced
  (\<^verbatim>\<open>egressStoreInfo.isAbleToSubmitEgressRequest\<close>) before anything tests it for
  \<^verbatim>\<open>null\<close>. \<^verbatim>\<open>ver\<close> is a number, on which \<^verbatim>\<open>parseInt(ver, 10)\<close> is the identity.
\<close>

definition notifySNS ::
  "world \<Rightarrow> requestContext \<Rightarrow> string \<Rightarrow> (error + message) \<times> world" where
  "notifySNS w requestContext environmentId =
     (let curUser = uid requestContext in
      if \<not> featureEnabled w
      then (Inl (Forbidden ''Unable to create Egress store since this feature is disabled''), w)
      else
        (case getEgressStoreInfo w environmentId of
           Inl e \<Rightarrow> (Inl e, w)
         | Inr None \<Rightarrow>
             (Inl (TypeError ''Cannot read property isAbleToSubmitEgressRequest of null''), w)
         | Inr (Some egressStoreInfo) \<Rightarrow>
             if \<not> isAbleToSubmitEgressRequest egressStoreInfo
             then (Inl (BadRequest
                    (''Egress Store:'' @ id' egressStoreInfo
                     @ '' is not ready for egress. Please contact your administrator for more information.'')), w)
             else
               let isEgressStoreOwner = (Some (createdBy egressStoreInfo) = curUser) in
               if \<not> isAdmin requestContext \<and> \<not> isEgressStoreOwner
               then (Inl (Forbidden
                      ''You are not authorized to submit egress request. Please contact your administrator for more information.''), w)
               else
                 (case prepareEgressStoreSnapshot w egressStoreInfo of
                    (Inl e, w1) \<Rightarrow> (Inl e, w1)
                  | (Inr (snapshotBucket, snapshotKey), w1) \<Rightarrow>
                      let egressStoreDdbLockId =
                            ''egress-store-ddb-access-'' @ id' egressStoreInfo;
                          location = ''arn:aws:s3:::'' @ snapshotBucket @ ''/'' @ snapshotKey;
                          egressStoreInfo' =
                            egressStoreInfo
                              \<lparr>status :=
                                 (if toUpperCase (status egressStoreInfo) \<noteq> PENDING_STATUS_CODE
                                  then PENDING_STATUS_CODE else status egressStoreInfo),
                               updatedBy := curUser,
                               updatedAt := IsoString (nowIso w1),
                               isAbleToSubmitEgressRequest := False,
                               egressStoreObjectListLocation := Some location,
                               ver := ver egressStoreInfo + 1\<rparr>
                      in
                        (case lockAndUpdate w1 egressStoreDdbLockId (id' egressStoreInfo')
                                egressStoreInfo' of
                           (Inl e, w2) \<Rightarrow> (Inl e, w2)
                         | (Inr u, w2) \<Rightarrow>
                             let message =
                                   \<lparr>msg_egressStoreObjectListLocation = location,
                                    msg_id = uuidV4 w2,
                                    egress_store_id = id' egressStoreInfo',
                                    egress_store_name = egressStoreName egressStoreInfo',
                                    created_at = createdAt egressStoreInfo',
                                    created_by = createdBy egressStoreInfo',
                                    workspace_id = workspaceId egressStoreInfo',
                                    project_id = projectId egressStoreInfo',
                                    s3_bucketname = s3BucketName egressStoreInfo',
                                    s3_bucketpath = s3BucketPath egressStoreInfo',
                                    msg_status = status egressStoreInfo',
                                    updated_by = updatedBy egressStoreInfo',
                                    updated_at = updatedAt egressStoreInfo',
                                    msg_ver = ver egressStoreInfo'\<rparr>
                             in
                               if publishFails w2
                               then (Inl (BadRequest
                                      (''Unable to publish message for egress store: ''
                                       @ id' egressStoreInfo')), w2)
                               else
                                 (Inr message,
                                  audit
                                    (w2\<lparr>published :=
                                          published w2
                                          @ [(egressNotificationSnsTopicArn w2, message)]\<rparr>)
                                    requestContext
                                    \<lparr>action = ''trigger-egress-notification-process'',
                                     body = BodyMessage message\<rparr>)))))"

section \<open>An example deployment\<close>

text \<open>
  A deployment with one workspace \<open>ws1\<close>, owned by \<open>alice\<close> and linked to the member
  account \<open>111122223333\<close>, whose record has the given status and submission flag. The
  bucket policy holds the three statements of the workspace's store and a statement of
  another store; the storage holds the folder object, four files of the workspace and a
  file of another workspace.
\<close>

definition exampleInfo :: "string \<Rightarrow> bool \<Rightarrow> egress_store_info" where
  "exampleInfo st flag =
     \<lparr>id' = ''ws1'',
      egressStoreName = ''demo-egress-store'',
      createdAt = ToISOStringFunction,
      createdBy = ''alice'',
      workspaceId = ''ws1'',
      projectId = ''proj'',
      s3BucketName = ''egress-bucket'',
      s3BucketPath = ''ws1/'',
      status = st,
      updatedBy = Some ''alice'',
      updatedAt = ToISOStringFunction,
      ver = 3,
      isAbleToSubmitEgressRequest = flag,
      egressStoreObjectListLocation = None\<rparr>"

definition exampleStatement :: "string \<Rightarrow> action_kind \<Rightarrow> string set \<Rightarrow> policy_statement" where
  "exampleStatement sid kind accounts =
     \<lparr>statementId = sid, effect = ''Allow'', actions = kind,
      resource = ''arn:aws:s3:::egress-bucket/*'', principals = accounts\<rparr>"

definition examplePolicy :: "policy_statement list" where
  "examplePolicy =
     [exampleStatement ''Get:ws1/'' GetObject {''111122223333''},
      exampleStatement ''Get:ws2/'' GetObject {''444455556666''},
      exampleStatement ''Put:ws1/'' PutObject {''111122223333''},
      exampleStatement ''List:ws1/'' ListBucket {''111122223333''}]"

definition exampleObjects :: "s3object list" where
  "exampleObjects =
     [\<lparr>Bucket = ''egress-bucket'', Key = ''ws1/'', Size = 0, LastModified = 10\<rparr>,
      \<lparr>Bucket = ''egress-bucket'', Key = ''ws1/b.csv'', Size = 1536, LastModified = 30\<rparr>,
      \<lparr>Bucket = ''egress-bucket'', Key = ''ws1/a.csv'', Size = 0, LastModified = 20\<rparr>,
      \<lparr>Bucket = ''egress-bucket'', Key = ''ws2/c.csv'', Size = 5, LastModified = 5\<rparr>,
      \<lparr>Bucket = ''egress-bucket'', Key = ''ws1/big.bin'', Size = 1125899906842624,
        LastModified = 15\<rparr>,
      \<lparr>Bucket = ''egress-bucket'', Key = ''ws1/sub/e.txt'', Size = 1048576,
        LastModified = 25\<rparr>]"

definition exampleWorld :: "egress_store_info list \<Rightarrow> world" where
  "exampleWorld items =
     \<lparr>enableEgressStore = ''true'',
      egressStoreBucketName = ''egress-bucket'',
      egressNotificationBucketName = ''notify-bucket'',
      egressNotificationSnsTopicArn = ''arn:aws:sns:topic'',
      dbEgressStore = items,
      objects = exampleObjects,
      bucketPolicy = examplePolicy,
      manifests = [],
      published = [],
      auditLog = [],
      schemaValid = (\<lambda>environment. True),
      memberAccount = (\<lambda>environmentId. Some ''111122223333''),
      kmsKeyArn = Some ''arn:aws:kms:key'',
      latestVersion = (\<lambda>bucketName key. (''v1'', ''owner'')),
      nowIso = ''2021-06-01T00:00:00.000Z'',
      nowMillis = 40,
      uuidV4 = ''00000000-0000-4000-8000-000000000000'',
      scanFails = False,
      clearPathFails = False,
      createPathFails = False,
      snapshotFails = False,
      listObjectsFails = False,
      publishFails = False,
      policyStoreFails = False\<rparr>"

definition alice :: requestContext where
  "alice = \<lparr>uid = Some ''alice'', isAdmin = False\<rparr>"

definition exampleEnvironment :: environment where
  "exampleEnvironment =
     \<lparr>env_id = ''ws1'', env_name = ''demo'', env_createdBy = ''alice'', env_projectId = ''proj''\<rparr>"

text \<open>
  The value of \<open>\<lfloor>log\<^bsub>1024\<^esub> bytes\<rfloor>\<close> over the reals, which the platform's
  floating-point quotient approximates.
\<close>

fun exactFloorLog1024 :: "nat \<Rightarrow> int" where
  "exactFloorLog1024 bytes =
     (if bytes < 1024 then 0 else 1 + exactFloorLog1024 (bytes div 1024))"

declare exactFloorLog1024.simps [simp del]

definition exampleStore :: egressStore where
  "exampleStore =
     \<lparr>d_id = ''egress-store-ws1'', d_readable = True, d_writeable = True, d_kmsArn = None,
      d_bucket = ''egress-bucket'', d_prefix = ''ws1/'',
      d_envPermission = \<lparr>p_read = True, p_write = True\<rparr>, d_status = ''reachable'',
      d_createdBy = ''alice'', d_workspaceId = ''ws1'', d_projectId = ''proj'',
      d_resources = [''arn:aws:s3:::egress-bucket/ws1/'']\<rparr>"

section \<open>Notions used in the proofs\<close>

text \<open>
  The statement \<^const>\<open>getRevisedS3Statements\<close> hands to the update function: the
  located one, or the synthesized empty one.
\<close>

definition locateStatement :: "policy_statement list \<Rightarrow> statement_params \<Rightarrow> policy_statement" where
  "locateStatement doc p =
     (case find (\<lambda>s. statementId s = p_statementId p) doc of
        Some s \<Rightarrow> s
      | None \<Rightarrow> createAllowStatement p)"

section \<open>The example deployment, evaluated\<close>

lemma toUpperCase_true: "toUpperCase ''true'' = ''TRUE''"
  by code_simp

lemma featureEnabled_exampleWorld: "featureEnabled (exampleWorld items)"
  by (simp add: featureEnabled_def exampleWorld_def toUpperCase_true)

lemma getEgressStoreInfo_exampleWorld:
  "getEgressStoreInfo (exampleWorld [exampleInfo st flag]) ''ws1'' = Inr (Some (exampleInfo st flag))"
  by (simp add: getEgressStoreInfo_def exampleWorld_def exampleInfo_def)

lemma getEgressStoreInfo_exampleWorld_empty:
  "getEgressStoreInfo (exampleWorld []) ''ws1'' = Inr None"
  by (simp add: getEgressStoreInfo_def exampleWorld_def)

section \<open>Lists and lookups\<close>

lemma find_Some_mem: "find P xs = Some x \<Longrightarrow> x \<in> set xs"
  by (induction xs) (auto split: if_splits)

lemma find_Some_key: "find (\<lambda>s. key s = k) xs = Some x \<Longrightarrow> key x = k"
  by (induction xs) (auto split: if_splits)

lemma find_append_eq:
  "find P (xs @ ys) = (case find P xs of Some x \<Rightarrow> Some x | None \<Rightarrow> find P ys)"
  by (induction xs) auto

lemma find_filter_eq: "find P (filter Q xs) = find (\<lambda>x. P x \<and> Q x) xs"
  by (induction xs) auto

lemma find_map_key:
  assumes "\<And>s. key (h s) = key s"
  shows "find (\<lambda>s. key s = x) (map h xs) = map_option h (find (\<lambda>s. key s = x) xs)"
  using assms by (induction xs) auto

lemma find_keyed:
  assumes "\<And>q. key (f q) = k q" and "distinct (map k ps)" and "p \<in> set ps"
  shows "find (\<lambda>r. key r = k p) (map f ps) = Some (f p)"
  using assms(2,3)
proof (induction ps)
  case Nil
  then show ?case by simp
next
  case (Cons q ps)
  then show ?case using assms(1) by (cases "q = p") auto
qed

lemma find_unkeyed:
  assumes "\<And>q. key (f q) = k q" and "x \<notin> k ` set ps"
  shows "find (\<lambda>r. key r = x) (map f ps) = None"
  using assms by (auto simp: find_None_iff)

lemma find_distinct_self:
  assumes "distinct (map key xs)" and "x \<in> set xs"
  shows "find (\<lambda>y. key y = key x) xs = Some x"
  using assms by (induction xs) (auto simp: rev_image_eqI)

section \<open>Policy reconciliation\<close>

lemma statementId_locate [simp]: "statementId (locateStatement doc p) = p_statementId p"
  by (auto simp: locateStatement_def createAllowStatement_def split: option.splits
           dest: find_Some_mem find_Some_key)

lemma statementId_add [simp]:
  "statementId (addAccountToStatement s a) = statementId s"
  by (simp add: addAccountToStatement_def)

lemma statementId_remove [simp]:
  "statementId (removeAccountFromStatement s a) = statementId s"
  by (simp add: removeAccountFromStatement_def)

lemma add_add [simp]:
  "addAccountToStatement (addAccountToStatement s a) a = addAccountToStatement s a"
  by (simp add: addAccountToStatement_def)

lemma principals_add [simp]: "principals (addAccountToStatement s a) \<noteq> {}"
  by (simp add: addAccountToStatement_def)

lemma getRevised_eq:
  "getRevisedS3Statements doc es b fns upd =
     map (\<lambda>p. upd (locateStatement doc p)) (map (\<lambda>fn. fn b (d_prefix es)) fns)"
  by (simp add: getRevisedS3Statements_def locateStatement_def Let_def comp_def)

text \<open>The document after an update with statements that all have principals.\<close>

lemma update_nonempty:
  assumes "\<forall>r \<in> set R. principals r \<noteq> {}"
  shows "updateS3BucketPolicy doc R =
           map (\<lambda>s. case find (\<lambda>r. statementId r = statementId s) R of
                       None \<Rightarrow> s | Some r \<Rightarrow> r) doc
           @ filter (\<lambda>r. statementId r \<notin> statementId ` set doc) R"
proof -
  have a: "(\<lambda>s. case find (\<lambda>r. statementId r = statementId s) R of
                       None \<Rightarrow> [s] | Some r \<Rightarrow> (if principals r = {} then [] else [r]))
         = (\<lambda>s. [case find (\<lambda>r. statementId r = statementId s) R of
                       None \<Rightarrow> s | Some r \<Rightarrow> r])"
    using assms by (auto split: option.splits dest!: find_Some_mem intro!: ext)
  have b: "filter (\<lambda>r. statementId r \<notin> set (map statementId doc) \<and> principals r \<noteq> {}) R
         = filter (\<lambda>r. statementId r \<notin> statementId ` set doc) R"
    using assms by (auto intro: filter_cong)
  show ?thesis unfolding updateS3BucketPolicy_def a b by simp
qed

lemma grant_idempotent_doc:
  assumes d: "distinct (map p_statementId ps)"
  shows "updateS3BucketPolicy
           (updateS3BucketPolicy doc (map (\<lambda>p. addAccountToStatement (locateStatement doc p) a) ps))
           (map (\<lambda>p. addAccountToStatement
                        (locateStatement
                           (updateS3BucketPolicy doc
                              (map (\<lambda>p. addAccountToStatement (locateStatement doc p) a) ps)) p) a) ps)
         = updateS3BucketPolicy doc (map (\<lambda>p. addAccountToStatement (locateStatement doc p) a) ps)"
proof -
  define R where "R = map (\<lambda>p. addAccountToStatement (locateStatement doc p) a) ps"
  define h where "h = (\<lambda>s. case find (\<lambda>r. statementId r = statementId s) R of
                       None \<Rightarrow> s | Some r \<Rightarrow> r)"
  define E where "E = filter (\<lambda>r. statementId r \<notin> statementId ` set doc) R"
  define G where "G = updateS3BucketPolicy doc R"
  have ne: "\<forall>r \<in> set R. principals r \<noteq> {}" by (auto simp: R_def)
  have G: "G = map h doc @ E"
    unfolding G_def h_def E_def by (rule update_nonempty [OF ne])
  have sidR: "map statementId R = map p_statementId ps" by (simp add: R_def comp_def)
  have dR: "distinct (map statementId R)" using d sidR by simp
  have findR: "find (\<lambda>r. statementId r = p_statementId p) R
                 = Some (addAccountToStatement (locateStatement doc p) a)" if "p \<in> set ps" for p
    unfolding R_def by (rule find_keyed [OF _ d that]) simp
  have findR_self: "find (\<lambda>r'. statementId r' = statementId r) R = Some r" if "r \<in> set R" for r
    using that findR by (auto simp: R_def)
  have h_sid: "statementId (h s) = statementId s" for s
    by (auto simp: h_def split: option.splits dest: find_Some_mem find_Some_key)
  have h_h: "h (h s) = h s" for s
  proof (cases "find (\<lambda>r. statementId r = statementId s) R")
    case None
    then show ?thesis by (simp add: h_def)
  next
    case (Some r)
    then have "statementId r = statementId s" by (rule find_Some_key)
    then show ?thesis using Some by (simp add: h_def)
  qed
  have h_R: "h r = r" if "r \<in> set R" for r
    using findR_self [OF that] by (simp add: h_def)
  have loc: "locateStatement G p = addAccountToStatement (locateStatement doc p) a"
    if p: "p \<in> set ps" for p
  proof (cases "find (\<lambda>s. statementId s = p_statementId p) doc")
    case None
    then have nin: "p_statementId p \<notin> statementId ` set doc"
      by (auto simp: find_None_iff)
    have "find (\<lambda>s. statementId s = p_statementId p) E
            = find (\<lambda>s. statementId s = p_statementId p) R"
    proof -
      have eq: "(\<lambda>x. statementId x = p_statementId p \<and> statementId x \<notin> statementId ` set doc)
              = (\<lambda>s. statementId s = p_statementId p)"
      proof (rule ext)
        fix x show "(statementId x = p_statementId p \<and> statementId x \<notin> statementId ` set doc)
              = (statementId x = p_statementId p)"
          using nin by (cases "statementId x = p_statementId p") simp_all
      qed
      show ?thesis unfolding E_def find_filter_eq eq by (rule refl)
    qed
    then show ?thesis
      using None findR [OF p]
      by (simp add: locateStatement_def G find_append_eq find_map_key [of statementId h, OF h_sid])
  next
    case (Some s)
    then have "statementId s = p_statementId p" by (auto dest: find_Some_mem find_Some_key)
    then have "h s = addAccountToStatement s a"
      using findR [OF p] Some by (simp add: h_def locateStatement_def)
    then show ?thesis
      using Some
      by (simp add: locateStatement_def G find_append_eq find_map_key [of statementId h, OF h_sid])
  qed
  have R2: "map (\<lambda>p. addAccountToStatement (locateStatement G p) a) ps = R"
    unfolding R_def by (rule map_cong) (simp_all add: loc)
  have sub: "statementId ` set R \<subseteq> statementId ` set G"
  proof
    fix x assume "x \<in> statementId ` set R"
    then obtain r where r: "r \<in> set R" "x = statementId r" by auto
    show "x \<in> statementId ` set G"
    proof (cases "x \<in> statementId ` set doc")
      case True
      then obtain s where "s \<in> set doc" "x = statementId s" by auto
      then have "h s \<in> set G" "statementId (h s) = x" by (auto simp: G h_sid)
      then show ?thesis by force
    next
      case False
      then have "r \<in> set E" using r by (simp add: E_def)
      then show ?thesis using r by (auto simp: G)
    qed
  qed
  have "updateS3BucketPolicy G R = map h G @ filter (\<lambda>r. statementId r \<notin> statementId ` set G) R"
    unfolding h_def by (rule update_nonempty [OF ne])
  also have "filter (\<lambda>r. statementId r \<notin> statementId ` set G) R = []"
    using sub by (auto simp: filter_empty_conv)
  also have "map h G = map h doc @ E"
  proof -
    have "map h E = E" by (rule map_idI) (auto simp: E_def h_R)
    then show ?thesis by (simp add: G h_h)
  qed
  finally have "updateS3BucketPolicy G R = G" by (simp add: G)
  then show ?thesis unfolding R2 [unfolded G_def R_def] G_def R_def using R2 
    by (simp add: G_def R_def)
qed


lemma remove_add_fresh:
  "a \<notin> principals s \<Longrightarrow> removeAccountFromStatement (addAccountToStatement s a) a = s"
  by (simp add: removeAccountFromStatement_def addAccountToStatement_def)

lemma remove_fresh: "a \<notin> principals s \<Longrightarrow> removeAccountFromStatement s a = s"
  by (simp add: removeAccountFromStatement_def)

lemma notin_principals_remove [simp]: "a \<notin> principals (removeAccountFromStatement s a)"
  by (simp add: removeAccountFromStatement_def)

lemma update_others:
  assumes "\<forall>r \<in> set R. statementId r \<in> S"
  shows "filter (\<lambda>s. statementId s \<notin> S) (updateS3BucketPolicy doc R)
           = filter (\<lambda>s. statementId s \<notin> S) doc"
proof -
  have one: "filter (\<lambda>s. statementId s \<notin> S)
               (case find (\<lambda>r. statementId r = statementId x) R of
                  None \<Rightarrow> [x]
                | Some r \<Rightarrow> (if principals r = {} then [] else [r]))
             = filter (\<lambda>s. statementId s \<notin> S) [x]" for x
  proof (cases "find (\<lambda>r. statementId r = statementId x) R")
    case None
    then show ?thesis by simp
  next
    case (Some r)
    then have "r \<in> set R" "statementId r = statementId x"
      by (auto dest: find_Some_mem find_Some_key)
    then show ?thesis using Some assms by auto
  qed
  have "filter (\<lambda>s. statementId s \<notin> S)
          (concat (map (\<lambda>s. case find (\<lambda>r. statementId r = statementId s) R of
                         None \<Rightarrow> [s]
                       | Some r \<Rightarrow> (if principals r = {} then [] else [r])) doc))
        = filter (\<lambda>s. statementId s \<notin> S) doc"
    by (induction doc) (simp_all add: one del: filter.simps, simp)
  moreover have "filter (\<lambda>s. statementId s \<notin> S)
          (filter (\<lambda>r. statementId r \<notin> set (map statementId doc) \<and> principals r \<noteq> {}) R) = []"
    using assms by (auto simp: filter_empty_conv)
  ultimately show ?thesis by (simp add: updateS3BucketPolicy_def)
qed

lemma update_members:
  assumes "s \<in> set (updateS3BucketPolicy doc R)"
  shows "(s \<in> set doc \<and> statementId s \<notin> statementId ` set R)
         \<or> (s \<in> set R \<and> principals s \<noteq> {})"
proof -
  from assms consider
      x where "x \<in> set doc"
        "s \<in> set (case find (\<lambda>r. statementId r = statementId x) R of
                      None \<Rightarrow> [x]
                    | Some r \<Rightarrow> (if principals r = {} then [] else [r]))"
    | "s \<in> set R" "principals s \<noteq> {}"
    by (auto simp: updateS3BucketPolicy_def)
  then show ?thesis
  proof cases
    case 1
    show ?thesis
    proof (cases "find (\<lambda>r. statementId r = statementId x) R")
      case None
      with 1 have "s = x" by simp
      moreover from None have "statementId x \<notin> statementId ` set R"
        by (auto simp: find_None_iff)
      ultimately show ?thesis using 1(1) by simp
    next
      case (Some r)
      then have "r \<in> set R" by (rule find_Some_mem)
      then show ?thesis using 1 Some by (auto split: if_splits)
    qed
  next
    case 2
    then show ?thesis by simp
  qed
qed

lemma grant_revoke_doc:
  assumes dps: "distinct (map p_statementId ps)"
    and sub: "set gs \<subseteq> set ps"
    and dgs: "distinct (map p_statementId gs)"
    and ddoc: "distinct (map statementId doc)"
    and fresh: "\<forall>s \<in> set doc. statementId s \<in> p_statementId ` set ps \<longrightarrow>
                  a \<notin> principals s \<and> principals s \<noteq> {}"
  shows "updateS3BucketPolicy
           (updateS3BucketPolicy doc (map (\<lambda>p. addAccountToStatement (locateStatement doc p) a) gs))
           (map (\<lambda>p. removeAccountFromStatement
                        (locateStatement
                           (updateS3BucketPolicy doc
                              (map (\<lambda>p. addAccountToStatement (locateStatement doc p) a) gs)) p) a) ps)
         = doc"
proof -
  define R where "R = map (\<lambda>p. addAccountToStatement (locateStatement doc p) a) gs"
  define h where "h = (\<lambda>s. case find (\<lambda>r. statementId r = statementId s) R of
                       None \<Rightarrow> s | Some r \<Rightarrow> r)"
  define E where "E = filter (\<lambda>r. statementId r \<notin> statementId ` set doc) R"
  define G where "G = updateS3BucketPolicy doc R"
  define R' where "R' = map (\<lambda>p. removeAccountFromStatement (locateStatement G p) a) ps"
  have ne: "\<forall>r \<in> set R. principals r \<noteq> {}" by (auto simp: R_def)
  have G: "G = map h doc @ E"
    unfolding G_def h_def E_def by (rule update_nonempty [OF ne])
  have h_sid: "statementId (h s) = statementId s" for s
    by (auto simp: h_def split: option.splits dest: find_Some_key)
  have findR: "find (\<lambda>r. statementId r = p_statementId p) R
                 = Some (addAccountToStatement (locateStatement doc p) a)" if "p \<in> set gs" for p
    unfolding R_def by (rule find_keyed [OF _ dgs that]) simp
  have findR_none: "find (\<lambda>r. statementId r = x) R = None" if "x \<notin> p_statementId ` set gs" for x
    unfolding R_def by (rule find_unkeyed [OF _ that]) simp
  have findR': "find (\<lambda>r. statementId r = p_statementId p) R'
                 = Some (removeAccountFromStatement (locateStatement G p) a)" if "p \<in> set ps" for p
    unfolding R'_def by (rule find_keyed [OF _ dps that]) simp
  have findR'_none: "find (\<lambda>r. statementId r = x) R' = None" if "x \<notin> p_statementId ` set ps" for x
    unfolding R'_def by (rule find_unkeyed [OF _ that]) simp
  have h_doc: "h s = s \<or> h s = addAccountToStatement s a" if s: "s \<in> set doc" for s
  proof (cases "statementId s \<in> p_statementId ` set gs")
    case False
    then show ?thesis using findR_none by (simp add: h_def)
  next
    case True
    then obtain q where q: "q \<in> set gs" "statementId s = p_statementId q" by auto
    have "find (\<lambda>y. statementId y = p_statementId q) doc = Some s"
      using find_distinct_self [OF ddoc s] q by simp
    then have "locateStatement doc q = s" by (simp add: locateStatement_def)
    then show ?thesis using findR [OF q(1)] q(2) by (simp add: h_def)
  qed
  have restored: "removeAccountFromStatement (locateStatement G p) a = s"
    if p: "p \<in> set ps" and s: "s \<in> set doc" and sp: "statementId s = p_statementId p" for p s
  proof -
    have f: "find (\<lambda>y. statementId y = p_statementId p) doc = Some s"
      using find_distinct_self [OF ddoc s] sp by simp
    have "locateStatement G p = h s"
      using f by (simp add: locateStatement_def G find_append_eq
                     find_map_key [of statementId h, OF h_sid])
    moreover have "a \<notin> principals s" using fresh s sp p by auto
    ultimately show ?thesis
      using h_doc [OF s] by (auto simp: remove_add_fresh remove_fresh)
  qed
  have gone: "principals (removeAccountFromStatement (locateStatement G p) a) = {}"
    if p: "p \<in> set ps" and nin: "p_statementId p \<notin> statementId ` set doc" for p
  proof -
    have nin': "\<forall>s \<in> set doc. statementId s \<noteq> p_statementId p"
      using nin by (metis imageI)
    have fd: "find (\<lambda>y. statementId y = p_statementId p) (map h doc) = None"
      using nin' by (auto simp: find_None_iff h_sid)
    show ?thesis
    proof (cases "find (\<lambda>y. statementId y = p_statementId p) E")
      case None
      then show ?thesis
        using fd by (simp add: locateStatement_def G find_append_eq
                       removeAccountFromStatement_def createAllowStatement_def)
    next
      case (Some r)
      then have "r \<in> set R" "statementId r = p_statementId p"
        by (auto dest: find_Some_mem find_Some_key simp: E_def)
      then obtain q where q: "q \<in> set gs" "r = addAccountToStatement (locateStatement doc q) a"
        by (auto simp: R_def)
      have "p_statementId q = p_statementId p"
        using \<open>statementId r = p_statementId p\<close> q by simp
      then have "find (\<lambda>y. statementId y = p_statementId q) doc = None"
        using nin' by (auto simp: find_None_iff)
      then have "principals r = {a}"
        using q by (simp add: locateStatement_def addAccountToStatement_def createAllowStatement_def)
      then show ?thesis
        using fd Some by (simp add: locateStatement_def G find_append_eq
                            removeAccountFromStatement_def)
    qed
  qed
  have keep: "(case find (\<lambda>r. statementId r = statementId (h s)) R' of
                 None \<Rightarrow> [h s]
               | Some r \<Rightarrow> (if principals r = {} then [] else [r])) = [s]"
    if s: "s \<in> set doc" for s
  proof (cases "statementId s \<in> p_statementId ` set ps")
    case False
    then have "statementId s \<notin> p_statementId ` set gs" using sub by auto
    then have "h s = s" using findR_none by (simp add: h_def)
    then show ?thesis using findR'_none [OF False] by simp
  next
    case True
    then obtain p where p: "p \<in> set ps" "statementId s = p_statementId p" by auto
    have "principals s \<noteq> {}" using fresh s True by auto
    then show ?thesis
      using findR' [OF p(1)] restored [OF p(1) s p(2)] p(2) by (simp add: h_sid)
  qed
  have drop: "(case find (\<lambda>r'. statementId r' = statementId r) R' of
                 None \<Rightarrow> [r]
               | Some r' \<Rightarrow> (if principals r' = {} then [] else [r'])) = []"
    if r: "r \<in> set E" for r
  proof -
    from r obtain q where q: "q \<in> set gs" "statementId r = p_statementId q"
      and nin: "statementId r \<notin> statementId ` set doc"
      by (auto simp: E_def R_def)
    have "q \<in> set ps" using q sub by auto
    then show ?thesis
      using findR' [of q] gone [of q] nin q(2) by simp
  qed
  have part1: "concat (map (\<lambda>s. case find (\<lambda>r. statementId r = statementId s) R' of
                         None \<Rightarrow> [s]
                       | Some r \<Rightarrow> (if principals r = {} then [] else [r])) (map h doc)) = doc"
  proof -
    have "set ys \<subseteq> set doc \<Longrightarrow>
          concat (map (\<lambda>s. case find (\<lambda>r. statementId r = statementId s) R' of
                         None \<Rightarrow> [s]
                       | Some r \<Rightarrow> (if principals r = {} then [] else [r])) (map h ys)) = ys" for ys
      by (induction ys) (simp_all add: keep)
    from this [of doc] show ?thesis by simp
  qed
  have part2: "concat (map (\<lambda>s. case find (\<lambda>r. statementId r = statementId s) R' of
                         None \<Rightarrow> [s]
                       | Some r \<Rightarrow> (if principals r = {} then [] else [r])) E) = []"
  proof -
    have "set ys \<subseteq> set E \<Longrightarrow>
          concat (map (\<lambda>s. case find (\<lambda>r. statementId r = statementId s) R' of
                         None \<Rightarrow> [s]
                       | Some r \<Rightarrow> (if principals r = {} then [] else [r])) ys) = []" for ys
      by (induction ys) (simp_all add: drop)
    from this [of E] show ?thesis by simp
  qed
  have part3: "filter (\<lambda>r. statementId r \<notin> set (map statementId G) \<and> principals r \<noteq> {}) R' = []"
  proof -
    have "statementId r \<in> statementId ` set G" if "r \<in> set R'" "principals r \<noteq> {}" for r
    proof -
      from that(1) obtain p where p: "p \<in> set ps"
        "r = removeAccountFromStatement (locateStatement G p) a"
        by (auto simp: R'_def)
      have "p_statementId p \<in> statementId ` set doc"
        using gone [OF p(1)] that(2) p(2) by auto
      then obtain s where "s \<in> set doc" "statementId s = p_statementId p" by auto
      then have "h s \<in> set G" "statementId (h s) = statementId r"
        using p(2) by (auto simp: G h_sid)
      then show ?thesis by (metis imageI)
    qed
    then show ?thesis by (auto simp: filter_empty_conv)
  qed
  have "updateS3BucketPolicy G R' = doc"
    unfolding updateS3BucketPolicy_def part3 unfolding G map_append concat_append part1 part2
    by simp
  then show ?thesis by (simp add: G_def R'_def R_def)
qed


lemma grant_params_distinct:
  "distinct (map p_statementId
     ((if r then [getStatementParamsFn b pre] else [])
      @ (if wr then [putStatementParamsFn b pre] else [])
      @ (if r \<or> wr then [listStatementParamsFn b pre] else [])))"
  by (simp add: getStatementParamsFn_def putStatementParamsFn_def listStatementParamsFn_def)

lemma revoke_params_distinct:
  "distinct (map p_statementId
     [getStatementParamsFn b pre, putStatementParamsFn b pre, listStatementParamsFn b pre])"
  by (simp add: getStatementParamsFn_def putStatementParamsFn_def listStatementParamsFn_def)

lemma revoke_params_ids:
  "p_statementId ` set [getStatementParamsFn b pre, putStatementParamsFn b pre,
                        listStatementParamsFn b pre]
     = {''Get:'' @ pre, ''Put:'' @ pre, ''List:'' @ pre}"
  by (simp add: getStatementParamsFn_def putStatementParamsFn_def listStatementParamsFn_def)

lemma bucketPolicy_add:
  "bucketPolicy (snd (addEgressStoreBucketPolicy w rc es a)) =
     (if policyStoreFails w then bucketPolicy w
      else updateS3BucketPolicy (bucketPolicy w)
             (map (\<lambda>p. addAccountToStatement (locateStatement (bucketPolicy w) p) a)
                ((if p_read (d_envPermission es)
                  then [getStatementParamsFn (egressStoreBucketName w) (d_prefix es)] else [])
                 @ (if p_write (d_envPermission es)
                    then [putStatementParamsFn (egressStoreBucketName w) (d_prefix es)] else [])
                 @ (if p_read (d_envPermission es) \<or> p_write (d_envPermission es)
                    then [listStatementParamsFn (egressStoreBucketName w) (d_prefix es)] else []))))"
  by (simp add: addEgressStoreBucketPolicy_def getS3BucketAndPolicy_def audit_def Let_def
        getRevised_eq)

lemma bucketPolicy_remove:
  "bucketPolicy (snd (removeEgressStoreBucketPolicy w rc es a)) =
     (if policyStoreFails w then bucketPolicy w
      else updateS3BucketPolicy (bucketPolicy w)
             (map (\<lambda>p. removeAccountFromStatement (locateStatement (bucketPolicy w) p) a)
                [getStatementParamsFn (egressStoreBucketName w) (d_prefix es),
                 putStatementParamsFn (egressStoreBucketName w) (d_prefix es),
                 listStatementParamsFn (egressStoreBucketName w) (d_prefix es)]))"
  by (simp add: removeEgressStoreBucketPolicy_def getS3BucketAndPolicy_def audit_def Let_def
        getRevised_eq)

lemma settings_add [simp]:
  "policyStoreFails (snd (addEgressStoreBucketPolicy w rc es a)) = policyStoreFails w"
  "egressStoreBucketName (snd (addEgressStoreBucketPolicy w rc es a)) = egressStoreBucketName w"
  by (simp_all add: addEgressStoreBucketPolicy_def getS3BucketAndPolicy_def audit_def Let_def)

section \<open>Granting and revoking\<close>

text \<open>
  Claim C3. Granting is idempotent: for every policy document, store and account,
  granting the store's account a second time leaves the policy document as the first
  grant left it; adding a principal that is already in a statement's principal set
  changes nothing.
\<close>

theorem grant_idempotent:
  "bucketPolicy (snd (addEgressStoreBucketPolicy
                        (snd (addEgressStoreBucketPolicy w requestContext egressStore memberAccountId))
                        requestContext' egressStore memberAccountId))
     = bucketPolicy (snd (addEgressStoreBucketPolicy w requestContext egressStore memberAccountId))"
proof (cases "policyStoreFails w")
  case True
  then show ?thesis by (simp add: bucketPolicy_add)
next
  case False
  show ?thesis
    unfolding bucketPolicy_add [of "snd (addEgressStoreBucketPolicy w requestContext egressStore memberAccountId)"]
    unfolding settings_add
    unfolding bucketPolicy_add [of w]
    using False grant_idempotent_doc [OF grant_params_distinct]
    by simp
qed

theorem grant_idempotent_witness:
  "bucketPolicy (snd (addEgressStoreBucketPolicy
                        (snd (addEgressStoreBucketPolicy (exampleWorld []) alice exampleStore
                                ''777788889999''))
                        alice exampleStore ''777788889999''))
     = bucketPolicy (snd (addEgressStoreBucketPolicy (exampleWorld []) alice exampleStore
                            ''777788889999''))"
  by (rule grant_idempotent)

text \<open>
  Claim C2, as amended. Granting a store's account and then revoking it gives back the
  policy document as it was before the grant, provided that the statement ids of the
  document are distinct and that, before the grant, every statement of the store in the
  document has a non-empty principal set that does not hold the account. Whatever the
  document was, as long as the policy store answers, after the revoke no statement of
  the store holds the account and none is left with an empty principal set (an emptied
  statement is dropped), and the statements of other stores are the same, in the same
  order.
\<close>

theorem grant_then_revoke:
  "(distinct (map statementId (bucketPolicy w))
      \<and> (\<forall>s \<in> set (bucketPolicy w).
            statementId s \<in> {''Get:'' @ d_prefix egressStore, ''Put:'' @ d_prefix egressStore,
                              ''List:'' @ d_prefix egressStore}
            \<longrightarrow> memberAccountId \<notin> principals s \<and> principals s \<noteq> {})
     \<longrightarrow> bucketPolicy (snd (removeEgressStoreBucketPolicy
                        (snd (addEgressStoreBucketPolicy w requestContext egressStore memberAccountId))
                        requestContext' egressStore memberAccountId))
           = bucketPolicy w)
   \<and> (\<not> policyStoreFails w \<longrightarrow>
        (\<forall>s \<in> set (bucketPolicy (snd (removeEgressStoreBucketPolicy
                        (snd (addEgressStoreBucketPolicy w requestContext egressStore memberAccountId))
                        requestContext' egressStore memberAccountId))).
            statementId s \<in> {''Get:'' @ d_prefix egressStore, ''Put:'' @ d_prefix egressStore,
                              ''List:'' @ d_prefix egressStore}
            \<longrightarrow> memberAccountId \<notin> principals s \<and> principals s \<noteq> {}))
   \<and> filter (\<lambda>s. statementId s \<notin> {''Get:'' @ d_prefix egressStore, ''Put:'' @ d_prefix egressStore,
                              ''List:'' @ d_prefix egressStore})
        (bucketPolicy (snd (removeEgressStoreBucketPolicy
                        (snd (addEgressStoreBucketPolicy w requestContext egressStore memberAccountId))
                        requestContext' egressStore memberAccountId)))
      = filter (\<lambda>s. statementId s \<notin> {''Get:'' @ d_prefix egressStore, ''Put:'' @ d_prefix egressStore,
                              ''List:'' @ d_prefix egressStore})
        (bucketPolicy w)"
proof -
  define b where "b = egressStoreBucketName w"
  define pre where "pre = d_prefix egressStore"
  define ids where "ids = {''Get:'' @ pre, ''Put:'' @ pre, ''List:'' @ pre}"
  define ps where "ps = [getStatementParamsFn b pre, putStatementParamsFn b pre,
                         listStatementParamsFn b pre]"
  define gs where "gs = (if p_read (d_envPermission egressStore)
                  then [getStatementParamsFn b pre] else [])
                 @ (if p_write (d_envPermission egressStore)
                    then [putStatementParamsFn b pre] else [])
                 @ (if p_read (d_envPermission egressStore) \<or> p_write (d_envPermission egressStore)
                    then [listStatementParamsFn b pre] else [])"
  define doc where "doc = bucketPolicy w"
  define G where "G = updateS3BucketPolicy doc
                        (map (\<lambda>p. addAccountToStatement (locateStatement doc p) memberAccountId) gs)"
  define D where "D = updateS3BucketPolicy G
                        (map (\<lambda>p. removeAccountFromStatement (locateStatement G p) memberAccountId) ps)"
  define final where "final = bucketPolicy (snd (removeEgressStoreBucketPolicy
                        (snd (addEgressStoreBucketPolicy w requestContext egressStore memberAccountId))
                        requestContext' egressStore memberAccountId))"
  have final: "final = (if policyStoreFails w then doc else D)"
    unfolding final_def bucketPolicy_remove settings_add bucketPolicy_add
    by (simp add: D_def G_def doc_def ps_def gs_def b_def pre_def)
  have dps: "distinct (map p_statementId ps)" unfolding ps_def by (rule revoke_params_distinct)
  have dgs: "distinct (map p_statementId gs)" unfolding gs_def by (rule grant_params_distinct)
  have sub: "set gs \<subseteq> set ps" by (auto simp: gs_def ps_def)
  have psids: "p_statementId ` set ps = ids" unfolding ps_def ids_def by (rule revoke_params_ids)
  have roundtrip: "D = doc"
    if "distinct (map statementId doc)"
      and "\<forall>s \<in> set doc. statementId s \<in> ids \<longrightarrow> memberAccountId \<notin> principals s \<and> principals s \<noteq> {}"
    unfolding D_def G_def
    by (rule grant_revoke_doc [OF dps sub dgs that(1)]) (use that(2) psids in simp)
  have revoked: "memberAccountId \<notin> principals s \<and> principals s \<noteq> {}"
    if s: "s \<in> set D" "statementId s \<in> ids" for s
  proof -
    have "statementId ` set (map (\<lambda>p. removeAccountFromStatement (locateStatement G p) memberAccountId) ps) = ids"
      using psids by (simp add: image_image)
    then show ?thesis
      using update_members [OF s(1) [unfolded D_def]] s(2) by auto
  qed
  have others: "filter (\<lambda>s. statementId s \<notin> ids) D = filter (\<lambda>s. statementId s \<notin> ids) doc"
  proof -
    have "filter (\<lambda>s. statementId s \<notin> ids) D = filter (\<lambda>s. statementId s \<notin> ids) G"
      unfolding D_def using psids by (intro update_others) auto
    also have "\<dots> = filter (\<lambda>s. statementId s \<notin> ids) doc"
      unfolding G_def using psids sub by (intro update_others) auto
    finally show ?thesis .
  qed
  have "(distinct (map statementId doc)
      \<and> (\<forall>s \<in> set doc. statementId s \<in> ids
            \<longrightarrow> memberAccountId \<notin> principals s \<and> principals s \<noteq> {})
     \<longrightarrow> final = doc)
   \<and> (\<not> policyStoreFails w \<longrightarrow>
        (\<forall>s \<in> set final. statementId s \<in> ids
            \<longrightarrow> memberAccountId \<notin> principals s \<and> principals s \<noteq> {}))
   \<and> filter (\<lambda>s. statementId s \<notin> ids) final = filter (\<lambda>s. statementId s \<notin> ids) doc"
    using roundtrip revoked others by (simp add: final)
  then show ?thesis
    unfolding final_def doc_def ids_def pre_def .
qed

theorem grant_then_revoke_witness:
  "distinct (map statementId (bucketPolicy (exampleWorld [])))
   \<and> bucketPolicy (snd (removeEgressStoreBucketPolicy
                          (snd (addEgressStoreBucketPolicy (exampleWorld []) alice exampleStore
                                  ''777788889999''))
                          alice exampleStore ''777788889999''))
       = bucketPolicy (exampleWorld [])"
proof -
  have h1: "distinct (map statementId (bucketPolicy (exampleWorld [])))"
    by (simp add: exampleWorld_def examplePolicy_def exampleStatement_def)
  have h2: "\<forall>s \<in> set (bucketPolicy (exampleWorld [])).
              statementId s \<in> {''Get:'' @ d_prefix exampleStore, ''Put:'' @ d_prefix exampleStore,
                                ''List:'' @ d_prefix exampleStore}
              \<longrightarrow> ''777788889999'' \<notin> principals s \<and> principals s \<noteq> {}"
    by (simp add: exampleWorld_def examplePolicy_def exampleStatement_def)
  show ?thesis
    using h1 h2 grant_then_revoke [of "exampleWorld []" exampleStore "''777788889999''" alice alice]
    by blast
qed

text \<open>
  Claim C2 as stated fails: when the account is already a principal of the store's
  statements, the grant changes nothing and the revoke removes the account, so the
  document after the two calls is not the document before them.
\<close>

theorem grant_then_revoke_counterexample:
  "bucketPolicy (snd (removeEgressStoreBucketPolicy
                        (snd (addEgressStoreBucketPolicy (exampleWorld []) alice exampleStore ''111122223333''))
                        alice exampleStore ''111122223333''))
     \<noteq> bucketPolicy (exampleWorld [])"
  by (simp add: bucketPolicy_remove bucketPolicy_add exampleWorld_def exampleStore_def
        examplePolicy_def exampleStatement_def updateS3BucketPolicy_def locateStatement_def
        getStatementParamsFn_def putStatementParamsFn_def listStatementParamsFn_def
        addAccountToStatement_def removeAccountFromStatement_def createAllowStatement_def)


section \<open>Create\<close>

lemma dbEgressStore_createPath: "dbEgressStore (createPath w b f) = dbEgressStore w"
  by (simp add: createPath_def)

lemma createEgressStore_table:
  "dbEgressStore (snd (createEgressStore w requestContext environment)) = dbEgressStore w
   \<or> (\<exists>item. dbEgressStore (snd (createEgressStore w requestContext environment)) = dbEgressStore w @ [item]
        \<and> id' item = env_id environment \<and> ver item = 0 \<and> status item = CREATED_STATUS_CODE
        \<and> \<not> isAbleToSubmitEgressRequest item
        \<and> createdAt item = ToISOStringFunction \<and> updatedAt item = ToISOStringFunction)"
  by (simp add: createEgressStore_def Let_def dbEgressStore_createPath
        addEgressStoreBucketPolicy_def getS3BucketAndPolicy_def audit_def
        split: sum.splits)

lemma createEgressStore_success_table:
  assumes "createEgressStore w requestContext environment = (Inr descriptor, w')"
  shows "\<exists>item. dbEgressStore w' = dbEgressStore w @ [item]
        \<and> (\<forall>old \<in> set (dbEgressStore w). id' old \<noteq> env_id environment)
        \<and> id' item = env_id environment \<and> ver item = 0 \<and> status item = CREATED_STATUS_CODE
        \<and> \<not> isAbleToSubmitEgressRequest item
        \<and> createdAt item = ToISOStringFunction \<and> updatedAt item = ToISOStringFunction"
  using assms
  by (auto simp add: createEgressStore_def Let_def dbEgressStore_createPath
        addEgressStoreBucketPolicy_def getS3BucketAndPolicy_def audit_def
         split: sum.splits if_splits)

text \<open>
  Claim C6. Creating a store for a workspace whose record is already in the table fails
  and leaves the table as it was; when the feature is enabled and the input is valid,
  the error is the conflict of the conditional write (``already exists'').
\<close>

theorem create_existing_fails:
  assumes "\<exists>item \<in> set (dbEgressStore w). id' item = env_id environment"
  shows "dbEgressStore (snd (createEgressStore w requestContext environment)) = dbEgressStore w
       \<and> (\<exists>e. fst (createEgressStore w requestContext environment) = Inl e)
       \<and> (featureEnabled w \<and> schemaValid w environment \<longrightarrow>
            fst (createEgressStore w requestContext environment) =
              Inl (BadRequest (''Egress Store with id '' @ quoted (env_id environment)
                               @ '' already exists'')))"
  using assms by (simp add: createEgressStore_def Let_def dbEgressStore_createPath)

theorem create_existing_fails_witness:
  "createEgressStore (exampleWorld [exampleInfo ''CREATED'' False]) alice exampleEnvironment
     \<noteq> (Inr exampleStore, exampleWorld [exampleInfo ''CREATED'' False])
   \<and> dbEgressStore (snd (createEgressStore (exampleWorld [exampleInfo ''CREATED'' False]) alice
                           exampleEnvironment))
       = [exampleInfo ''CREATED'' False]
   \<and> fst (createEgressStore (exampleWorld [exampleInfo ''CREATED'' False]) alice
             exampleEnvironment)
       = Inl (BadRequest (''Egress Store with id '' @ quoted ''ws1'' @ '' already exists''))"
proof -
  have h: "\<exists>item \<in> set (dbEgressStore (exampleWorld [exampleInfo ''CREATED'' False])).
             id' item = env_id exampleEnvironment"
    by (simp add: exampleWorld_def exampleInfo_def exampleEnvironment_def)
  have v: "schemaValid (exampleWorld [exampleInfo ''CREATED'' False]) exampleEnvironment"
    by (simp add: exampleWorld_def)
  have t: "dbEgressStore (exampleWorld [exampleInfo ''CREATED'' False])
             = [exampleInfo ''CREATED'' False]"
    by (simp add: exampleWorld_def)
  have e: "env_id exampleEnvironment = ''ws1''"
    by (simp add: exampleEnvironment_def)
  show ?thesis
    using create_existing_fails [OF h, of alice] featureEnabled_exampleWorld v t e
    by (auto simp: prod_eq_iff)
qed

text \<open>
  Claim C10. Every record that create writes has \<^verbatim>\<open>createdAt\<close> and
  \<^verbatim>\<open>updatedAt\<close> set to the method \<^verbatim>\<open>toISOString\<close>, not to a timestamp string: the
  source reads \<^verbatim>\<open>new Date().toISOString\<close> without calling it. After a successful
  create the workspace's record is in the table and carries no timestamp string.
\<close>

theorem create_timestamps_are_function_references:
  "(\<forall>item \<in> set (dbEgressStore (snd (createEgressStore w requestContext environment)))
              - set (dbEgressStore w).
        createdAt item = ToISOStringFunction \<and> updatedAt item = ToISOStringFunction)
   \<and> (\<forall>descriptor w'. createEgressStore w requestContext environment = (Inr descriptor, w') \<longrightarrow>
        (\<exists>item \<in> set (dbEgressStore w'). id' item = env_id environment
            \<and> createdAt item = ToISOStringFunction \<and> updatedAt item = ToISOStringFunction)
        \<and> (\<forall>item \<in> set (dbEgressStore w'). id' item = env_id environment \<longrightarrow>
              (\<forall>t. createdAt item \<noteq> IsoString t \<and> updatedAt item \<noteq> IsoString t)))"
proof (intro conjI allI impI)
  show "\<forall>item \<in> set (dbEgressStore (snd (createEgressStore w requestContext environment)))
              - set (dbEgressStore w).
        createdAt item = ToISOStringFunction \<and> updatedAt item = ToISOStringFunction"
    using createEgressStore_table [of w requestContext environment] by auto
next
  fix descriptor w'
  assume ok: "createEgressStore w requestContext environment = (Inr descriptor, w')"
  from createEgressStore_success_table [OF ok]
  obtain item where item: "dbEgressStore w' = dbEgressStore w @ [item]"
     "\<forall>old \<in> set (dbEgressStore w). id' old \<noteq> env_id environment"
     "id' item = env_id environment"
     "createdAt item = ToISOStringFunction" "updatedAt item = ToISOStringFunction"
    by blast
  show "\<exists>item \<in> set (dbEgressStore w'). id' item = env_id environment
            \<and> createdAt item = ToISOStringFunction \<and> updatedAt item = ToISOStringFunction"
    using item by auto
  show "\<forall>item \<in> set (dbEgressStore w'). id' item = env_id environment \<longrightarrow>
              (\<forall>t. createdAt item \<noteq> IsoString t \<and> updatedAt item \<noteq> IsoString t)"
    using item by auto
qed


theorem create_timestamps_are_function_references_witness:
  "\<exists>descriptor w'.
      createEgressStore (exampleWorld []) alice exampleEnvironment = (Inr descriptor, w')
      \<and> map createdAt (dbEgressStore w') = [ToISOStringFunction]
      \<and> map updatedAt (dbEgressStore w') = [ToISOStringFunction]"
proof -
  obtain r w' where run: "createEgressStore (exampleWorld []) alice exampleEnvironment = (r, w')"
    by (cases "createEgressStore (exampleWorld []) alice exampleEnvironment")
  have ok: "\<exists>descriptor. r = Inr descriptor"
    using run featureEnabled_exampleWorld [of "[]"]
    by (auto simp: createEgressStore_def Let_def exampleWorld_def createPath_def
          getKmsKeyIdArn_def getMemberAccountId_def addEgressStoreBucketPolicy_def
          getS3BucketAndPolicy_def audit_def)
  then obtain descriptor where d: "createEgressStore (exampleWorld []) alice exampleEnvironment
                                    = (Inr descriptor, w')"
    using run by auto
  have tbl: "\<exists>item. dbEgressStore w' = [item]"
    using createEgressStore_success_table [OF d]
    by (auto simp: exampleWorld_def)
  have "\<forall>item \<in> set (dbEgressStore w') - set (dbEgressStore (exampleWorld [])).
          createdAt item = ToISOStringFunction \<and> updatedAt item = ToISOStringFunction"
    using create_timestamps_are_function_references [of "exampleWorld []" alice exampleEnvironment] d
    by simp
  then show ?thesis using d tbl by (auto simp: exampleWorld_def)
qed

section \<open>Submit and listing without a record, submit when not eligible\<close>

text \<open>
  Claim C7. A submit on a store whose record has
  \<^verbatim>\<open>isAbleToSubmitEgressRequest\<close> false fails and changes nothing: no event is
  published and no record is written. With the feature enabled the error is the
  ``not ready for egress'' bad request, raised before the caller is authorized.
\<close>

theorem notifySNS_not_ready:
  assumes "getEgressStoreInfo w environmentId = Inr (Some egressStoreInfo)"
    and "\<not> isAbleToSubmitEgressRequest egressStoreInfo"
  shows "snd (notifySNS w requestContext environmentId) = w
       \<and> (\<exists>e. fst (notifySNS w requestContext environmentId) = Inl e)
       \<and> (featureEnabled w \<longrightarrow>
            fst (notifySNS w requestContext environmentId) =
              Inl (BadRequest (''Egress Store:'' @ id' egressStoreInfo
                @ '' is not ready for egress. Please contact your administrator for more information.'')))"
  using assms by (simp add: notifySNS_def Let_def)

theorem notifySNS_not_ready_witness:
  "notifySNS (exampleWorld [exampleInfo ''CREATED'' False]) alice ''ws1'' =
     (Inl (BadRequest ''Egress Store:ws1 is not ready for egress. Please contact your administrator for more information.''),
      exampleWorld [exampleInfo ''CREATED'' False])"
proof -
  have h1: "getEgressStoreInfo (exampleWorld [exampleInfo ''CREATED'' False]) ''ws1''
              = Inr (Some (exampleInfo ''CREATED'' False))"
    by (rule getEgressStoreInfo_exampleWorld)
  have h2: "\<not> isAbleToSubmitEgressRequest (exampleInfo ''CREATED'' False)"
    by (simp add: exampleInfo_def)
  have h3: "id' (exampleInfo ''CREATED'' False) = ''ws1''"
    by (simp add: exampleInfo_def)
  show ?thesis
    using notifySNS_not_ready [OF h1 h2, of alice] featureEnabled_exampleWorld h3
    by (simp add: prod_eq_iff)
qed

text \<open>
  Claim C9. For a workspace with no record, with the feature enabled, listing
  (\<^verbatim>\<open>getEgressStore\<close>) and submit (\<^verbatim>\<open>notifySNS\<close>) read a property of the
  \<^verbatim>\<open>null\<close> lookup result before any test for existence and fail with a null-access
  error, where terminate tests the result first and returns \<^verbatim>\<open>null\<close>.
\<close>

theorem null_record_dereferenced:
  assumes "getEgressStoreInfo w environmentId = Inr None"
    and "featureEnabled w"
  shows "getEgressStore floorLog1024 w requestContext environmentId =
           Inl (TypeError ''Cannot read property createdBy of null'')
       \<and> notifySNS w requestContext environmentId =
           (Inl (TypeError ''Cannot read property isAbleToSubmitEgressRequest of null''), w)
       \<and> fst (terminateEgressStore w requestContext environmentId) = Inr None"
  using assms by (simp add: getEgressStore_def notifySNS_def terminateEgressStore_def Let_def)

theorem null_record_dereferenced_witness:
  "getEgressStore exactFloorLog1024 (exampleWorld []) alice ''ws1'' =
           Inl (TypeError ''Cannot read property createdBy of null'')
       \<and> notifySNS (exampleWorld []) alice ''ws1'' =
           (Inl (TypeError ''Cannot read property isAbleToSubmitEgressRequest of null''), exampleWorld [])
       \<and> fst (terminateEgressStore (exampleWorld []) alice ''ws1'') = Inr None"
  using null_record_dereferenced [OF getEgressStoreInfo_exampleWorld_empty featureEnabled_exampleWorld]
  by simp

section \<open>Listing\<close>










section \<open>Terminate\<close>

lemma getEgressStoreInfo_mem:
  assumes "getEgressStoreInfo w environmentId = Inr (Some egressStoreInfo)"
  shows "egressStoreInfo \<in> set (dbEgressStore w)"
proof -
  have "filter (\<lambda>store. workspaceId store = environmentId) (take 1000 (dbEgressStore w))
          = [egressStoreInfo]"
    using assms by (auto simp: getEgressStoreInfo_def split: if_splits list.splits)
  then have "egressStoreInfo \<in> set (filter (\<lambda>store. workspaceId store = environmentId)
                                       (take 1000 (dbEgressStore w)))"
    by simp
  then show ?thesis by (auto dest: in_set_takeD)
qed

lemma status_codes_distinct:
  "PROCESSED_STATUS_CODE \<noteq> PROCESSING_STATUS_CODE"
  "CREATED_STATUS_CODE \<noteq> PROCESSING_STATUS_CODE"
  by (simp_all add: PROCESSED_STATUS_CODE_def PROCESSING_STATUS_CODE_def CREATED_STATUS_CODE_def)

lemma terminate_effect:
  assumes enabled: "featureEnabled w"
    and found: "getEgressStoreInfo w environmentId = Inr (Some egressStoreInfo)"
    and allowed: "isAdmin requestContext \<or> uid requestContext = Some (createdBy egressStoreInfo)"
    and terminable: "toUpperCase (status egressStoreInfo) = PROCESSED_STATUS_CODE
                     \<or> (toUpperCase (status egressStoreInfo) = CREATED_STATUS_CODE
                         \<and> \<not> isAbleToSubmitEgressRequest egressStoreInfo)"
    and s3: "\<not> clearPathFails w"
    and account: "memberAccount w environmentId = Some memberAccountId"
    and policy: "\<not> policyStoreFails w"
  shows "fst (terminateEgressStore w requestContext environmentId) =
           Inr (Some (egressStoreInfo
                        \<lparr>status := TERMINATED_STATUS_CODE,
                         updatedBy := uid requestContext,
                         updatedAt := IsoString (nowIso w),
                         isAbleToSubmitEgressRequest := False\<rparr>))"
    and "objects (snd (terminateEgressStore w requestContext environmentId)) =
           filter (\<lambda>obj. \<not> (Bucket obj = s3BucketName egressStoreInfo
                              \<and> startsWith (Key obj) (s3BucketPath egressStoreInfo)))
                  (objects w)"
    and "dbEgressStore (snd (terminateEgressStore w requestContext environmentId)) =
           map (\<lambda>item. if id' item = id' egressStoreInfo
                        then egressStoreInfo
                               \<lparr>status := TERMINATED_STATUS_CODE,
                                updatedBy := uid requestContext,
                                updatedAt := IsoString (nowIso w),
                                isAbleToSubmitEgressRequest := False\<rparr>
                        else item)
               (dbEgressStore w)"
    and "bucketPolicy (snd (terminateEgressStore w requestContext environmentId)) =
           updateS3BucketPolicy (bucketPolicy w)
             (map (\<lambda>p. removeAccountFromStatement (locateStatement (bucketPolicy w) p)
                          memberAccountId)
                [getStatementParamsFn (egressStoreBucketName w) (s3BucketPath egressStoreInfo),
                 putStatementParamsFn (egressStoreBucketName w) (s3BucketPath egressStoreInfo),
                 listStatementParamsFn (egressStoreBucketName w) (s3BucketPath egressStoreInfo)])"
proof -
  have mem: "egressStoreInfo \<in> set (dbEgressStore w)"
    using found by (rule getEgressStoreInfo_mem)
  have notproc: "toUpperCase (status egressStoreInfo) \<noteq> PROCESSING_STATUS_CODE"
    using terminable status_codes_distinct by auto
  have ex: "\<exists>item \<in> set (dbEgressStore w). id' item = id' egressStoreInfo"
    using mem by auto
  note defs = terminateEgressStore_def Let_def lockAndUpdate_def clearPath_def
    getMemberAccountId_def removeEgressStoreBucketPolicy_def getS3BucketAndPolicy_def audit_def
    getRevised_eq
  show "fst (terminateEgressStore w requestContext environmentId) =
           Inr (Some (egressStoreInfo
                        \<lparr>status := TERMINATED_STATUS_CODE,
                         updatedBy := uid requestContext,
                         updatedAt := IsoString (nowIso w),
                         isAbleToSubmitEgressRequest := False\<rparr>))"
    using enabled found allowed terminable s3 account policy notproc ex
    by (auto simp: defs)
  show "objects (snd (terminateEgressStore w requestContext environmentId)) =
           filter (\<lambda>obj. \<not> (Bucket obj = s3BucketName egressStoreInfo
                              \<and> startsWith (Key obj) (s3BucketPath egressStoreInfo)))
                  (objects w)"
    using enabled found allowed terminable s3 account policy notproc ex
    by (auto simp: defs)
  show "dbEgressStore (snd (terminateEgressStore w requestContext environmentId)) =
           map (\<lambda>item. if id' item = id' egressStoreInfo
                        then egressStoreInfo
                               \<lparr>status := TERMINATED_STATUS_CODE,
                                updatedBy := uid requestContext,
                                updatedAt := IsoString (nowIso w),
                                isAbleToSubmitEgressRequest := False\<rparr>
                        else item)
               (dbEgressStore w)"
    using enabled found allowed terminable s3 account policy notproc ex
    by (auto simp: defs)
  show "bucketPolicy (snd (terminateEgressStore w requestContext environmentId)) =
           updateS3BucketPolicy (bucketPolicy w)
             (map (\<lambda>p. removeAccountFromStatement (locateStatement (bucketPolicy w) p)
                          memberAccountId)
                [getStatementParamsFn (egressStoreBucketName w) (s3BucketPath egressStoreInfo),
                 putStatementParamsFn (egressStoreBucketName w) (s3BucketPath egressStoreInfo),
                 listStatementParamsFn (egressStoreBucketName w) (s3BucketPath egressStoreInfo)])"
    using enabled found allowed terminable s3 account policy notproc ex
    by (auto simp: defs)
qed

lemma toUpperCase_examples:
  "toUpperCase ''PROCESSED'' = ''PROCESSED''"
  "toUpperCase ''PROCESSING'' = ''PROCESSING''"
  "toUpperCase ''PENDING'' = ''PENDING''"
  "toUpperCase ''CREATED'' = ''CREATED''"
  by code_simp+

lemma example_allowed:
  "isAdmin alice \<or> uid alice = Some (createdBy (exampleInfo st flag))"
  by (simp add: alice_def exampleInfo_def)

text \<open>
  Claim C1. With the feature enabled, a record found for the workspace and a caller who
  is an administrator or the owner, terminate follows the status of the record, compared
  in upper case. If it is PROCESSING the call fails (the rejection the spec names
  Conflict, raised by the source as a forbidden error) and storage, record and bucket
  policy stay as they are. If it is PROCESSED, or CREATED with
  \<^verbatim>\<open>isAbleToSubmitEgressRequest\<close> false, and the collaborators answer, the objects
  under the store's prefix are deleted, the record is written with status TERMINATED and
  the flag false, and the bucket policy is the policy with the member account revoked,
  in which no statement of the store holds the account. For every other status the
  record is returned as it is, without error and without any change.
\<close>

theorem terminate_transition_rule:
  assumes enabled: "featureEnabled w"
    and found: "getEgressStoreInfo w environmentId = Inr (Some egressStoreInfo)"
    and allowed: "isAdmin requestContext \<or> uid requestContext = Some (createdBy egressStoreInfo)"
  shows
    "(toUpperCase (status egressStoreInfo) = PROCESSING_STATUS_CODE \<longrightarrow>
        terminateEgressStore w requestContext environmentId =
          (Inl (Forbidden
             (''Egress store: '' @ id' egressStoreInfo
              @ '' is still in processing. The egress store is not terminated and the workspce can not be terminated before egress request is processed.'')),
           w))
     \<and> ((toUpperCase (status egressStoreInfo) = PROCESSED_STATUS_CODE
           \<or> (toUpperCase (status egressStoreInfo) = CREATED_STATUS_CODE
               \<and> \<not> isAbleToSubmitEgressRequest egressStoreInfo))
          \<and> \<not> clearPathFails w \<and> memberAccount w environmentId = Some memberAccountId
          \<and> \<not> policyStoreFails w \<longrightarrow>
           fst (terminateEgressStore w requestContext environmentId) =
             Inr (Some (egressStoreInfo
                          \<lparr>status := TERMINATED_STATUS_CODE,
                           updatedBy := uid requestContext,
                           updatedAt := IsoString (nowIso w),
                           isAbleToSubmitEgressRequest := False\<rparr>))
           \<and> objects (snd (terminateEgressStore w requestContext environmentId)) =
               filter (\<lambda>obj. \<not> (Bucket obj = s3BucketName egressStoreInfo
                                  \<and> startsWith (Key obj) (s3BucketPath egressStoreInfo)))
                      (objects w)
           \<and> dbEgressStore (snd (terminateEgressStore w requestContext environmentId)) =
               map (\<lambda>item. if id' item = id' egressStoreInfo
                            then egressStoreInfo
                                   \<lparr>status := TERMINATED_STATUS_CODE,
                                    updatedBy := uid requestContext,
                                    updatedAt := IsoString (nowIso w),
                                    isAbleToSubmitEgressRequest := False\<rparr>
                            else item)
                   (dbEgressStore w)
           \<and> bucketPolicy (snd (terminateEgressStore w requestContext environmentId)) =
               updateS3BucketPolicy (bucketPolicy w)
                 (map (\<lambda>p. removeAccountFromStatement (locateStatement (bucketPolicy w) p)
                              memberAccountId)
                    [getStatementParamsFn (egressStoreBucketName w) (s3BucketPath egressStoreInfo),
                     putStatementParamsFn (egressStoreBucketName w) (s3BucketPath egressStoreInfo),
                     listStatementParamsFn (egressStoreBucketName w) (s3BucketPath egressStoreInfo)])
           \<and> (\<forall>s \<in> set (bucketPolicy (snd (terminateEgressStore w requestContext environmentId))).
                 statementId s \<in> {''Get:'' @ s3BucketPath egressStoreInfo,
                                   ''Put:'' @ s3BucketPath egressStoreInfo,
                                   ''List:'' @ s3BucketPath egressStoreInfo}
                 \<longrightarrow> memberAccountId \<notin> principals s))
     \<and> (toUpperCase (status egressStoreInfo) \<noteq> PROCESSING_STATUS_CODE
          \<and> toUpperCase (status egressStoreInfo) \<noteq> PROCESSED_STATUS_CODE
          \<and> \<not> (toUpperCase (status egressStoreInfo) = CREATED_STATUS_CODE
                 \<and> \<not> isAbleToSubmitEgressRequest egressStoreInfo) \<longrightarrow>
           terminateEgressStore w requestContext environmentId = (Inr (Some egressStoreInfo), w))"
proof (intro conjI impI)
  assume "toUpperCase (status egressStoreInfo) = PROCESSING_STATUS_CODE"
  then show "terminateEgressStore w requestContext environmentId =
          (Inl (Forbidden
             (''Egress store: '' @ id' egressStoreInfo
              @ '' is still in processing. The egress store is not terminated and the workspce can not be terminated before egress request is processed.'')),
           w)"
    using enabled found allowed by (auto simp: terminateEgressStore_def Let_def)
next
  assume "toUpperCase (status egressStoreInfo) \<noteq> PROCESSING_STATUS_CODE
          \<and> toUpperCase (status egressStoreInfo) \<noteq> PROCESSED_STATUS_CODE
          \<and> \<not> (toUpperCase (status egressStoreInfo) = CREATED_STATUS_CODE
                 \<and> \<not> isAbleToSubmitEgressRequest egressStoreInfo)"
  then show "terminateEgressStore w requestContext environmentId = (Inr (Some egressStoreInfo), w)"
    using enabled found allowed by (auto simp: terminateEgressStore_def Let_def)
next
  assume h: "(toUpperCase (status egressStoreInfo) = PROCESSED_STATUS_CODE
           \<or> (toUpperCase (status egressStoreInfo) = CREATED_STATUS_CODE
               \<and> \<not> isAbleToSubmitEgressRequest egressStoreInfo))
          \<and> \<not> clearPathFails w \<and> memberAccount w environmentId = Some memberAccountId
          \<and> \<not> policyStoreFails w"
  then have t: "toUpperCase (status egressStoreInfo) = PROCESSED_STATUS_CODE
           \<or> (toUpperCase (status egressStoreInfo) = CREATED_STATUS_CODE
               \<and> \<not> isAbleToSubmitEgressRequest egressStoreInfo)"
    and c: "\<not> clearPathFails w" and m: "memberAccount w environmentId = Some memberAccountId"
    and p: "\<not> policyStoreFails w"
    by blast+
  note eff = terminate_effect [OF enabled found allowed t c m p]
  show "fst (terminateEgressStore w requestContext environmentId) =
             Inr (Some (egressStoreInfo
                          \<lparr>status := TERMINATED_STATUS_CODE,
                           updatedBy := uid requestContext,
                           updatedAt := IsoString (nowIso w),
                           isAbleToSubmitEgressRequest := False\<rparr>))"
    by (rule eff(1))
  show "objects (snd (terminateEgressStore w requestContext environmentId)) =
               filter (\<lambda>obj. \<not> (Bucket obj = s3BucketName egressStoreInfo
                                  \<and> startsWith (Key obj) (s3BucketPath egressStoreInfo)))
                      (objects w)"
    by (rule eff(2))
  show "dbEgressStore (snd (terminateEgressStore w requestContext environmentId)) =
               map (\<lambda>item. if id' item = id' egressStoreInfo
                            then egressStoreInfo
                                   \<lparr>status := TERMINATED_STATUS_CODE,
                                    updatedBy := uid requestContext,
                                    updatedAt := IsoString (nowIso w),
                                    isAbleToSubmitEgressRequest := False\<rparr>
                            else item)
                   (dbEgressStore w)"
    by (rule eff(3))
  show "bucketPolicy (snd (terminateEgressStore w requestContext environmentId)) =
               updateS3BucketPolicy (bucketPolicy w)
                 (map (\<lambda>p. removeAccountFromStatement (locateStatement (bucketPolicy w) p)
                              memberAccountId)
                    [getStatementParamsFn (egressStoreBucketName w) (s3BucketPath egressStoreInfo),
                     putStatementParamsFn (egressStoreBucketName w) (s3BucketPath egressStoreInfo),
                     listStatementParamsFn (egressStoreBucketName w) (s3BucketPath egressStoreInfo)])"
    by (rule eff(4))
  show "\<forall>s \<in> set (bucketPolicy (snd (terminateEgressStore w requestContext environmentId))).
                 statementId s \<in> {''Get:'' @ s3BucketPath egressStoreInfo,
                                   ''Put:'' @ s3BucketPath egressStoreInfo,
                                   ''List:'' @ s3BucketPath egressStoreInfo}
                 \<longrightarrow> memberAccountId \<notin> principals s"
  proof (intro ballI impI)
    fix s
    assume s: "s \<in> set (bucketPolicy (snd (terminateEgressStore w requestContext environmentId)))"
      and sid: "statementId s \<in> {''Get:'' @ s3BucketPath egressStoreInfo,
                                   ''Put:'' @ s3BucketPath egressStoreInfo,
                                   ''List:'' @ s3BucketPath egressStoreInfo}"
    define ps where
      "ps = [getStatementParamsFn (egressStoreBucketName w) (s3BucketPath egressStoreInfo),
             putStatementParamsFn (egressStoreBucketName w) (s3BucketPath egressStoreInfo),
             listStatementParamsFn (egressStoreBucketName w) (s3BucketPath egressStoreInfo)]"
    define R where
      "R = map (\<lambda>p. removeAccountFromStatement (locateStatement (bucketPolicy w) p)
                       memberAccountId) ps"
    have "statementId ` set R = p_statementId ` set ps"
      unfolding R_def by (simp add: image_image)
    then have ids: "statementId ` set R = {''Get:'' @ s3BucketPath egressStoreInfo,
                                      ''Put:'' @ s3BucketPath egressStoreInfo,
                                      ''List:'' @ s3BucketPath egressStoreInfo}"
      unfolding ps_def
      using revoke_params_ids [of "egressStoreBucketName w" "s3BucketPath egressStoreInfo"]
      by (simp only:)
    have "s \<in> set (updateS3BucketPolicy (bucketPolicy w) R)"
      using s unfolding eff(4) R_def ps_def .
    then have "(s \<in> set (bucketPolicy w) \<and> statementId s \<notin> statementId ` set R)
               \<or> (s \<in> set R \<and> principals s \<noteq> {})"
      by (rule update_members)
    then have "s \<in> set R" using sid ids by blast
    then show "memberAccountId \<notin> principals s"
      by (auto simp: R_def)
  qed
qed

theorem terminate_transition_rule_witness:
  "terminateEgressStore (exampleWorld [exampleInfo ''PROCESSING'' True]) alice ''ws1'' =
     (Inl (Forbidden
        (''Egress store: '' @ ''ws1''
         @ '' is still in processing. The egress store is not terminated and the workspce can not be terminated before egress request is processed.'')),
      exampleWorld [exampleInfo ''PROCESSING'' True])
   \<and> map status (dbEgressStore (snd (terminateEgressStore
                                        (exampleWorld [exampleInfo ''PROCESSED'' True]) alice ''ws1'')))
       = [''TERMINATED'']
   \<and> map Key (objects (snd (terminateEgressStore
                               (exampleWorld [exampleInfo ''PROCESSED'' True]) alice ''ws1'')))
       = [''ws2/c.csv'']
   \<and> terminateEgressStore (exampleWorld [exampleInfo ''PENDING'' False]) alice ''ws1'' =
       (Inr (Some (exampleInfo ''PENDING'' False)), exampleWorld [exampleInfo ''PENDING'' False])"
proof -
  have allowed: "isAdmin alice \<or> uid alice = Some (createdBy (exampleInfo st flag))" for st flag
    by (simp add: alice_def exampleInfo_def)
  note rule = terminate_transition_rule
                [OF featureEnabled_exampleWorld getEgressStoreInfo_exampleWorld allowed]
  have a: "terminateEgressStore (exampleWorld [exampleInfo ''PROCESSING'' True]) alice ''ws1'' =
     (Inl (Forbidden
        (''Egress store: '' @ ''ws1''
         @ '' is still in processing. The egress store is not terminated and the workspce can not be terminated before egress request is processed.'')),
      exampleWorld [exampleInfo ''PROCESSING'' True])"
    using rule [of "''PROCESSING''" True]
    by (simp add: exampleInfo_def toUpperCase_examples PROCESSING_STATUS_CODE_def)
  have b: "dbEgressStore (snd (terminateEgressStore
                                        (exampleWorld [exampleInfo ''PROCESSED'' True]) alice ''ws1''))
       = map (\<lambda>item. if id' item = id' (exampleInfo ''PROCESSED'' True)
                            then (exampleInfo ''PROCESSED'' True)
                                   \<lparr>status := TERMINATED_STATUS_CODE,
                                    updatedBy := uid alice,
                                    updatedAt := IsoString (nowIso (exampleWorld [exampleInfo ''PROCESSED'' True])),
                                    isAbleToSubmitEgressRequest := False\<rparr>
                            else item)
                   (dbEgressStore (exampleWorld [exampleInfo ''PROCESSED'' True]))"
    and c: "objects (snd (terminateEgressStore
                               (exampleWorld [exampleInfo ''PROCESSED'' True]) alice ''ws1''))
       = filter (\<lambda>obj. \<not> (Bucket obj = s3BucketName (exampleInfo ''PROCESSED'' True)
                                  \<and> startsWith (Key obj) (s3BucketPath (exampleInfo ''PROCESSED'' True))))
                      (objects (exampleWorld [exampleInfo ''PROCESSED'' True]))"
    using rule [of "''PROCESSED''" True "''111122223333''"]
    by (simp_all add: exampleInfo_def exampleWorld_def toUpperCase_examples
          PROCESSED_STATUS_CODE_def)
  have d: "terminateEgressStore (exampleWorld [exampleInfo ''PENDING'' False]) alice ''ws1'' =
       (Inr (Some (exampleInfo ''PENDING'' False)), exampleWorld [exampleInfo ''PENDING'' False])"
    using rule [of "''PENDING''" False]
    by (simp add: exampleInfo_def toUpperCase_examples PROCESSING_STATUS_CODE_def
          PROCESSED_STATUS_CODE_def CREATED_STATUS_CODE_def)
  have b': "map status (dbEgressStore (snd (terminateEgressStore
                                        (exampleWorld [exampleInfo ''PROCESSED'' True]) alice ''ws1'')))
       = [''TERMINATED'']"
    unfolding b by (simp add: exampleWorld_def exampleInfo_def TERMINATED_STATUS_CODE_def)
  have c': "map Key (objects (snd (terminateEgressStore
                               (exampleWorld [exampleInfo ''PROCESSED'' True]) alice ''ws1'')))
       = [''ws2/c.csv'']"
    unfolding c by (simp add: exampleWorld_def exampleInfo_def exampleObjects_def startsWith_def)
  show ?thesis by (intro conjI a b' c' d)
qed

section \<open>Submit\<close>

lemma notifySNS_effect:
  fixes w requestContext environmentId egressStoreInfo
  defines "key \<equiv> id' egressStoreInfo @ ''/'' @ egressStoreName egressStoreInfo @ ''-ver''
                   @ showInt (ver egressStoreInfo + 1) @ ''.json''"
  defines "location \<equiv> ''arn:aws:s3:::'' @ egressNotificationBucketName w @ ''/'' @ key"
  defines "egressStoreInfo' \<equiv>
             egressStoreInfo
               \<lparr>status := (if toUpperCase (status egressStoreInfo) \<noteq> PENDING_STATUS_CODE
                            then PENDING_STATUS_CODE else status egressStoreInfo),
                updatedBy := uid requestContext,
                updatedAt := IsoString (nowIso w),
                isAbleToSubmitEgressRequest := False,
                egressStoreObjectListLocation := Some location,
                ver := ver egressStoreInfo + 1\<rparr>"
  defines "message \<equiv>
             \<lparr>msg_egressStoreObjectListLocation = location,
              msg_id = uuidV4 w,
              egress_store_id = id' egressStoreInfo',
              egress_store_name = egressStoreName egressStoreInfo',
              created_at = createdAt egressStoreInfo',
              created_by = createdBy egressStoreInfo',
              workspace_id = workspaceId egressStoreInfo',
              project_id = projectId egressStoreInfo',
              s3_bucketname = s3BucketName egressStoreInfo',
              s3_bucketpath = s3BucketPath egressStoreInfo',
              msg_status = status egressStoreInfo',
              updated_by = updatedBy egressStoreInfo',
              updated_at = updatedAt egressStoreInfo',
              msg_ver = ver egressStoreInfo'\<rparr>"
  assumes enabled: "featureEnabled w"
    and found: "getEgressStoreInfo w environmentId = Inr (Some egressStoreInfo)"
    and eligible: "isAbleToSubmitEgressRequest egressStoreInfo"
    and allowed: "isAdmin requestContext \<or> uid requestContext = Some (createdBy egressStoreInfo)"
    and s3: "\<not> listObjectsFails w" "\<not> snapshotFails w"
  shows "manifests (snd (notifySNS w requestContext environmentId)) =
           manifests w
           @ [\<lparr>m_Bucket = egressNotificationBucketName w, m_Key = key,
               m_objects =
                 map (\<lambda>obj. \<lparr>m_object = obj,
                             m_VersionId =
                               fst (latestVersion w (s3BucketName egressStoreInfo) (Key obj)),
                             m_Owner =
                               snd (latestVersion w (s3BucketName egressStoreInfo) (Key obj))\<rparr>)
                     (listAllObjects w (s3BucketName egressStoreInfo)
                        (s3BucketPath egressStoreInfo))\<rparr>]"
    and "dbEgressStore (snd (notifySNS w requestContext environmentId)) =
           map (\<lambda>item. if id' item = id' egressStoreInfo then egressStoreInfo' else item)
               (dbEgressStore w)"
    and "publishFails w \<Longrightarrow>
           fst (notifySNS w requestContext environmentId) =
             Inl (BadRequest (''Unable to publish message for egress store: ''
                              @ id' egressStoreInfo))
           \<and> published (snd (notifySNS w requestContext environmentId)) = published w"
    and "\<not> publishFails w \<Longrightarrow>
           fst (notifySNS w requestContext environmentId) = Inr message
           \<and> published (snd (notifySNS w requestContext environmentId)) =
               published w @ [(egressNotificationSnsTopicArn w, message)]"
proof -
  have mem: "egressStoreInfo \<in> set (dbEgressStore w)"
    using found by (rule getEgressStoreInfo_mem)
  then have ex: "\<exists>item \<in> set (dbEgressStore w). id' item = id' egressStoreInfo"
    by auto
  note defs = notifySNS_def Let_def prepareEgressStoreSnapshot_def lockAndUpdate_def audit_def
    key_def location_def egressStoreInfo'_def message_def
  show "manifests (snd (notifySNS w requestContext environmentId)) =
           manifests w
           @ [\<lparr>m_Bucket = egressNotificationBucketName w, m_Key = key,
               m_objects =
                 map (\<lambda>obj. \<lparr>m_object = obj,
                             m_VersionId =
                               fst (latestVersion w (s3BucketName egressStoreInfo) (Key obj)),
                             m_Owner =
                               snd (latestVersion w (s3BucketName egressStoreInfo) (Key obj))\<rparr>)
                     (listAllObjects w (s3BucketName egressStoreInfo)
                        (s3BucketPath egressStoreInfo))\<rparr>]"
    using enabled found eligible allowed s3 ex by (auto simp: defs)
  show "dbEgressStore (snd (notifySNS w requestContext environmentId)) =
           map (\<lambda>item. if id' item = id' egressStoreInfo then egressStoreInfo' else item)
               (dbEgressStore w)"
    using enabled found eligible allowed s3 ex by (auto simp: defs)
  show "publishFails w \<Longrightarrow>
           fst (notifySNS w requestContext environmentId) =
             Inl (BadRequest (''Unable to publish message for egress store: ''
                              @ id' egressStoreInfo))
           \<and> published (snd (notifySNS w requestContext environmentId)) = published w"
    using enabled found eligible allowed s3 ex by (auto simp: defs)
  show "\<not> publishFails w \<Longrightarrow>
           fst (notifySNS w requestContext environmentId) = Inr message
           \<and> published (snd (notifySNS w requestContext environmentId)) =
               published w @ [(egressNotificationSnsTopicArn w, message)]"
    using enabled found eligible allowed s3 ex by (auto simp: defs)
qed


lemma exampleWorld_publishFails:
  "featureEnabled (exampleWorld items\<lparr>publishFails := True\<rparr>)"
  "getEgressStoreInfo (exampleWorld [exampleInfo st flag]\<lparr>publishFails := True\<rparr>) ''ws1''
     = Inr (Some (exampleInfo st flag))"
  by (simp_all add: featureEnabled_def getEgressStoreInfo_def exampleWorld_def exampleInfo_def
        toUpperCase_true)

text \<open>
  Claim C5. A submit that passes the feature, eligibility and authorization checks, with
  the object storage answering, writes the manifest of the store's objects, then writes
  the record with status PENDING (the status is kept when it already reads PENDING), the
  version incremented, the manifest location recorded and
  \<^verbatim>\<open>isAbleToSubmitEgressRequest\<close> false, and then publishes the event. When the
  publication fails, the error is the ``unable to publish'' bad request (the spec's
  PublishFailed), nothing is published, and the record stays as written.
\<close>

theorem submit_persists_then_publishes:
  fixes w requestContext environmentId egressStoreInfo
  defines "key \<equiv> id' egressStoreInfo @ ''/'' @ egressStoreName egressStoreInfo @ ''-ver''
                   @ showInt (ver egressStoreInfo + 1) @ ''.json''"
  defines "location \<equiv> ''arn:aws:s3:::'' @ egressNotificationBucketName w @ ''/'' @ key"
  defines "egressStoreInfo' \<equiv>
             egressStoreInfo
               \<lparr>status := (if toUpperCase (status egressStoreInfo) \<noteq> PENDING_STATUS_CODE
                            then PENDING_STATUS_CODE else status egressStoreInfo),
                updatedBy := uid requestContext,
                updatedAt := IsoString (nowIso w),
                isAbleToSubmitEgressRequest := False,
                egressStoreObjectListLocation := Some location,
                ver := ver egressStoreInfo + 1\<rparr>"
  defines "message \<equiv>
             \<lparr>msg_egressStoreObjectListLocation = location,
              msg_id = uuidV4 w,
              egress_store_id = id' egressStoreInfo',
              egress_store_name = egressStoreName egressStoreInfo',
              created_at = createdAt egressStoreInfo',
              created_by = createdBy egressStoreInfo',
              workspace_id = workspaceId egressStoreInfo',
              project_id = projectId egressStoreInfo',
              s3_bucketname = s3BucketName egressStoreInfo',
              s3_bucketpath = s3BucketPath egressStoreInfo',
              msg_status = status egressStoreInfo',
              updated_by = updatedBy egressStoreInfo',
              updated_at = updatedAt egressStoreInfo',
              msg_ver = ver egressStoreInfo'\<rparr>"
  assumes enabled: "featureEnabled w"
    and found: "getEgressStoreInfo w environmentId = Inr (Some egressStoreInfo)"
    and eligible: "isAbleToSubmitEgressRequest egressStoreInfo"
    and allowed: "isAdmin requestContext \<or> uid requestContext = Some (createdBy egressStoreInfo)"
    and s3: "\<not> listObjectsFails w" "\<not> snapshotFails w"
  shows "manifests (snd (notifySNS w requestContext environmentId)) =
           manifests w
           @ [\<lparr>m_Bucket = egressNotificationBucketName w, m_Key = key,
               m_objects =
                 map (\<lambda>obj. \<lparr>m_object = obj,
                             m_VersionId =
                               fst (latestVersion w (s3BucketName egressStoreInfo) (Key obj)),
                             m_Owner =
                               snd (latestVersion w (s3BucketName egressStoreInfo) (Key obj))\<rparr>)
                     (listAllObjects w (s3BucketName egressStoreInfo)
                        (s3BucketPath egressStoreInfo))\<rparr>]
       \<and> dbEgressStore (snd (notifySNS w requestContext environmentId)) =
           map (\<lambda>item. if id' item = id' egressStoreInfo then egressStoreInfo' else item)
               (dbEgressStore w)
       \<and> egressStoreInfo' \<in> set (dbEgressStore (snd (notifySNS w requestContext environmentId)))
       \<and> toUpperCase (status egressStoreInfo') = PENDING_STATUS_CODE
       \<and> (toUpperCase (status egressStoreInfo) = PENDING_STATUS_CODE \<longrightarrow>
             status egressStoreInfo' = status egressStoreInfo)
       \<and> ver egressStoreInfo' = ver egressStoreInfo + 1
       \<and> egressStoreObjectListLocation egressStoreInfo' = Some location
       \<and> \<not> isAbleToSubmitEgressRequest egressStoreInfo'
       \<and> (publishFails w \<longrightarrow>
             fst (notifySNS w requestContext environmentId) =
               Inl (BadRequest (''Unable to publish message for egress store: ''
                                @ id' egressStoreInfo))
             \<and> published (snd (notifySNS w requestContext environmentId)) = published w)
       \<and> (\<not> publishFails w \<longrightarrow>
             fst (notifySNS w requestContext environmentId) = Inr message
             \<and> published (snd (notifySNS w requestContext environmentId)) =
                 published w @ [(egressNotificationSnsTopicArn w, message)])"
proof -
  note eff = notifySNS_effect [OF enabled found eligible allowed s3]
  have mem: "egressStoreInfo \<in> set (dbEgressStore w)"
    using found by (rule getEgressStoreInfo_mem)
  have stored: "egressStoreInfo' \<in> set (dbEgressStore (snd (notifySNS w requestContext environmentId)))"
    unfolding eff(2) egressStoreInfo'_def location_def key_def using mem by force
  have pending: "toUpperCase (status egressStoreInfo') = PENDING_STATUS_CODE"
    using toUpperCase_examples(3)
    by (simp add: egressStoreInfo'_def PENDING_STATUS_CODE_def)
  have rest: "(toUpperCase (status egressStoreInfo) = PENDING_STATUS_CODE \<longrightarrow>
             status egressStoreInfo' = status egressStoreInfo)
       \<and> ver egressStoreInfo' = ver egressStoreInfo + 1
       \<and> egressStoreObjectListLocation egressStoreInfo' = Some location
       \<and> \<not> isAbleToSubmitEgressRequest egressStoreInfo'"
    by (simp add: egressStoreInfo'_def)
  show ?thesis
    using eff(1) eff(2) eff(3) eff(4) stored pending rest
    unfolding egressStoreInfo'_def message_def location_def key_def
    by blast
qed

theorem submit_persists_then_publishes_witness:
  "map ver (dbEgressStore (snd (notifySNS (exampleWorld [exampleInfo ''PROCESSED'' True]) alice
                                   ''ws1'')))
     = [4]
   \<and> length (published (snd (notifySNS (exampleWorld [exampleInfo ''PROCESSED'' True]) alice
                                 ''ws1''))) = 1
   \<and> fst (notifySNS (exampleWorld [exampleInfo ''PROCESSED'' True]\<lparr>publishFails := True\<rparr>) alice
             ''ws1'')
       = Inl (BadRequest ''Unable to publish message for egress store: ws1'')
   \<and> map ver (dbEgressStore
                 (snd (notifySNS (exampleWorld [exampleInfo ''PROCESSED'' True]\<lparr>publishFails := True\<rparr>)
                         alice ''ws1'')))
       = [4]
   \<and> published (snd (notifySNS (exampleWorld [exampleInfo ''PROCESSED'' True]\<lparr>publishFails := True\<rparr>)
                         alice ''ws1''))
       = []"
proof -
  have e: "isAbleToSubmitEgressRequest (exampleInfo ''PROCESSED'' True)"
    by (simp add: exampleInfo_def)
  have s: "\<not> listObjectsFails (exampleWorld items)" "\<not> snapshotFails (exampleWorld items)"
          "\<not> listObjectsFails (exampleWorld items\<lparr>publishFails := True\<rparr>)"
          "\<not> snapshotFails (exampleWorld items\<lparr>publishFails := True\<rparr>)" for items
    by (simp_all add: exampleWorld_def)
  note ok = submit_persists_then_publishes
              [OF featureEnabled_exampleWorld getEgressStoreInfo_exampleWorld e example_allowed
                  s(1) s(2)]
  note ko = submit_persists_then_publishes
              [OF exampleWorld_publishFails(1) exampleWorld_publishFails(2) e example_allowed
                  s(3) s(4)]
  have a: "map ver (dbEgressStore (snd (notifySNS (exampleWorld [exampleInfo ''PROCESSED'' True]) alice
                                   ''ws1''))) = [4]"
    using ok by (simp add: exampleWorld_def exampleInfo_def)
  have b: "length (published (snd (notifySNS (exampleWorld [exampleInfo ''PROCESSED'' True]) alice
                                 ''ws1''))) = 1"
    using ok by (simp add: exampleWorld_def)
  have c: "fst (notifySNS (exampleWorld [exampleInfo ''PROCESSED'' True]\<lparr>publishFails := True\<rparr>) alice
             ''ws1'')
       = Inl (BadRequest ''Unable to publish message for egress store: ws1'')"
    using ko by (simp add: exampleInfo_def)
  have d: "map ver (dbEgressStore
                 (snd (notifySNS (exampleWorld [exampleInfo ''PROCESSED'' True]\<lparr>publishFails := True\<rparr>)
                         alice ''ws1''))) = [4]"
    using ko by (simp add: exampleWorld_def exampleInfo_def)
  have f: "published (snd (notifySNS (exampleWorld [exampleInfo ''PROCESSED'' True]\<lparr>publishFails := True\<rparr>)
                         alice ''ws1'')) = []"
    using ko by (simp add: exampleWorld_def)
  show ?thesis by (intro conjI a b c d f)
qed

section \<open>The version counter\<close>

lemma keyed_item_unique:
  assumes "distinct (map key xs)" and "x \<in> set xs" and "y \<in> set xs" and "key y = key x"
  shows "y = x"
  using assms by (meson distinct_map inj_on_eq_iff)

lemma map_field_of_update:
  "map f (map (\<lambda>item. if key item = k then y else item) xs)
     = map (\<lambda>item. if key item = k then f y else f item) xs"
  by (induction xs) simp_all

lemma field_kept_by_update:
  assumes d: "distinct (map key xs)" and x: "x \<in> set xs" and same: "f y = f x"
  shows "map f (map (\<lambda>item. if key item = key x then y else item) xs) = map f xs"
  unfolding map_field_of_update
proof (rule map_cong [OF refl])
  fix item assume "item \<in> set xs"
  then show "(if key item = key x then f y else f item) = f item"
    using keyed_item_unique [OF d x] same by auto
qed

lemma field_changed_by_update:
  assumes d: "distinct (map key xs)" and x: "x \<in> set xs" and new: "f y = g (f x)"
  shows "map f (map (\<lambda>item. if key item = key x then y else item) xs)
           = map (\<lambda>item. if key item = key x then g (f item) else f item) xs"
  unfolding map_field_of_update
proof (rule map_cong [OF refl])
  fix item assume "item \<in> set xs"
  then show "(if key item = key x then f y else f item)
               = (if key item = key x then g (f item) else f item)"
    using keyed_item_unique [OF d x] new by auto
qed

text \<open>
  Claim C4, as amended. Of the mutations of a record only submit increments
  \<^verbatim>\<open>ver\<close>: in a table keyed by the id, submit writes the stored record with
  \<^verbatim>\<open>ver\<close> one higher and leaves the other records' \<^verbatim>\<open>ver\<close> alone; create
  appends the record with \<^verbatim>\<open>ver\<close> 0; terminate writes back the record it read,
  so no \<^verbatim>\<open>ver\<close> in the table changes; \<^verbatim>\<open>enableEgressStoreSubmission\<close>
  overwrites the stored record with the record it is given (flag set), so no
  \<^verbatim>\<open>ver\<close> changes when it is given the stored record, and the stored
  \<^verbatim>\<open>ver\<close> becomes the given one otherwise.
\<close>

theorem ver_incremented_by_submit_only:
  "(\<forall>descriptor w'.
       createEgressStore w requestContext environment = (Inr descriptor, w') \<longrightarrow>
       (\<exists>item. dbEgressStore w' = dbEgressStore w @ [item]
               \<and> id' item = env_id environment \<and> ver item = 0))
   \<and> (featureEnabled w
       \<and> getEgressStoreInfo w environmentId = Inr (Some egressStoreInfo)
       \<and> (isAdmin requestContext \<or> uid requestContext = Some (createdBy egressStoreInfo))
       \<and> distinct (map id' (dbEgressStore w)) \<longrightarrow>
        (isAbleToSubmitEgressRequest egressStoreInfo
         \<and> \<not> listObjectsFails w \<and> \<not> snapshotFails w \<longrightarrow>
           map ver (dbEgressStore (snd (notifySNS w requestContext environmentId))) =
             map (\<lambda>item. if id' item = id' egressStoreInfo then ver item + 1 else ver item)
                 (dbEgressStore w))
        \<and> ((toUpperCase (status egressStoreInfo) = PROCESSED_STATUS_CODE
              \<or> (toUpperCase (status egressStoreInfo) = CREATED_STATUS_CODE
                  \<and> \<not> isAbleToSubmitEgressRequest egressStoreInfo))
             \<and> \<not> clearPathFails w \<and> memberAccount w environmentId = Some memberAccountId
             \<and> \<not> policyStoreFails w \<longrightarrow>
           map ver (dbEgressStore (snd (terminateEgressStore w requestContext environmentId))) =
             map ver (dbEgressStore w)
           \<and> map status (dbEgressStore
                            (snd (terminateEgressStore w requestContext environmentId))) =
               map (\<lambda>item. if id' item = id' egressStoreInfo then TERMINATED_STATUS_CODE
                            else status item)
                   (dbEgressStore w)))
   \<and> ((\<exists>item \<in> set (dbEgressStore w). id' item = id' givenInfo) \<longrightarrow>
        fst (enableEgressStoreSubmission w givenInfo) = Inr ()
        \<and> dbEgressStore (snd (enableEgressStoreSubmission w givenInfo)) =
            map (\<lambda>item. if id' item = id' givenInfo
                         then givenInfo\<lparr>isAbleToSubmitEgressRequest := True\<rparr> else item)
                (dbEgressStore w))
   \<and> (distinct (map id' (dbEgressStore w)) \<and> givenInfo \<in> set (dbEgressStore w) \<longrightarrow>
        map ver (dbEgressStore (snd (enableEgressStoreSubmission w givenInfo))) =
          map ver (dbEgressStore w))"
proof (intro conjI allI impI)
  fix descriptor w'
  assume "createEgressStore w requestContext environment = (Inr descriptor, w')"
  from createEgressStore_success_table [OF this]
  show "\<exists>item. dbEgressStore w' = dbEgressStore w @ [item]
               \<and> id' item = env_id environment \<and> ver item = 0"
    by blast
next
  assume pre: "featureEnabled w
       \<and> getEgressStoreInfo w environmentId = Inr (Some egressStoreInfo)
       \<and> (isAdmin requestContext \<or> uid requestContext = Some (createdBy egressStoreInfo))
       \<and> distinct (map id' (dbEgressStore w))"
    and sub: "isAbleToSubmitEgressRequest egressStoreInfo
         \<and> \<not> listObjectsFails w \<and> \<not> snapshotFails w"
  have mem: "egressStoreInfo \<in> set (dbEgressStore w)"
    using pre by (auto intro: getEgressStoreInfo_mem)
  have d: "distinct (map id' (dbEgressStore w))" using pre by simp
  have eff: "dbEgressStore (snd (notifySNS w requestContext environmentId)) =
           map (\<lambda>item. if id' item = id' egressStoreInfo
                        then egressStoreInfo
               \<lparr>status := (if toUpperCase (status egressStoreInfo) \<noteq> PENDING_STATUS_CODE
                            then PENDING_STATUS_CODE else status egressStoreInfo),
                updatedBy := uid requestContext,
                updatedAt := IsoString (nowIso w),
                isAbleToSubmitEgressRequest := False,
                egressStoreObjectListLocation :=
                  Some (''arn:aws:s3:::'' @ egressNotificationBucketName w @ ''/''
                        @ (id' egressStoreInfo @ ''/'' @ egressStoreName egressStoreInfo @ ''-ver''
                           @ showInt (ver egressStoreInfo + 1) @ ''.json'')),
                ver := ver egressStoreInfo + 1\<rparr>
                        else item)
               (dbEgressStore w)"
    using pre sub by (intro notifySNS_effect(2)) blast+
  show "map ver (dbEgressStore (snd (notifySNS w requestContext environmentId))) =
             map (\<lambda>item. if id' item = id' egressStoreInfo then ver item + 1 else ver item)
                 (dbEgressStore w)"
    unfolding eff
    by (rule field_changed_by_update [OF d mem, where g = "\<lambda>v. v + 1"]) simp
next
  assume pre: "featureEnabled w
       \<and> getEgressStoreInfo w environmentId = Inr (Some egressStoreInfo)
       \<and> (isAdmin requestContext \<or> uid requestContext = Some (createdBy egressStoreInfo))
       \<and> distinct (map id' (dbEgressStore w))"
    and trm: "(toUpperCase (status egressStoreInfo) = PROCESSED_STATUS_CODE
              \<or> (toUpperCase (status egressStoreInfo) = CREATED_STATUS_CODE
                  \<and> \<not> isAbleToSubmitEgressRequest egressStoreInfo))
             \<and> \<not> clearPathFails w \<and> memberAccount w environmentId = Some memberAccountId
             \<and> \<not> policyStoreFails w"
  have mem: "egressStoreInfo \<in> set (dbEgressStore w)"
    using pre by (auto intro: getEgressStoreInfo_mem)
  have d: "distinct (map id' (dbEgressStore w))" using pre by simp
  have eff: "dbEgressStore (snd (terminateEgressStore w requestContext environmentId)) =
           map (\<lambda>item. if id' item = id' egressStoreInfo
                        then egressStoreInfo
                               \<lparr>status := TERMINATED_STATUS_CODE,
                                updatedBy := uid requestContext,
                                updatedAt := IsoString (nowIso w),
                                isAbleToSubmitEgressRequest := False\<rparr>
                        else item)
               (dbEgressStore w)"
    using pre trm by (intro terminate_effect(3)) blast+
  show "map ver (dbEgressStore (snd (terminateEgressStore w requestContext environmentId))) =
             map ver (dbEgressStore w)"
    unfolding eff by (rule field_kept_by_update [OF d mem]) simp
  show "map status (dbEgressStore
                            (snd (terminateEgressStore w requestContext environmentId))) =
               map (\<lambda>item. if id' item = id' egressStoreInfo then TERMINATED_STATUS_CODE
                            else status item)
                   (dbEgressStore w)"
    unfolding eff map_field_of_update by simp
next
  assume ex: "\<exists>item \<in> set (dbEgressStore w). id' item = id' givenInfo"
  then show "fst (enableEgressStoreSubmission w givenInfo) = Inr ()"
    by (simp add: enableEgressStoreSubmission_def lockAndUpdate_def Let_def)
  from ex show "dbEgressStore (snd (enableEgressStoreSubmission w givenInfo)) =
            map (\<lambda>item. if id' item = id' givenInfo
                         then givenInfo\<lparr>isAbleToSubmitEgressRequest := True\<rparr> else item)
                (dbEgressStore w)"
    by (simp add: enableEgressStoreSubmission_def lockAndUpdate_def Let_def)
next
  assume h: "distinct (map id' (dbEgressStore w)) \<and> givenInfo \<in> set (dbEgressStore w)"
  then have d: "distinct (map id' (dbEgressStore w))" and mem: "givenInfo \<in> set (dbEgressStore w)"
    by simp_all
  from mem have ex: "\<exists>item \<in> set (dbEgressStore w). id' item = id' givenInfo" by auto
  then have eff: "dbEgressStore (snd (enableEgressStoreSubmission w givenInfo)) =
            map (\<lambda>item. if id' item = id' givenInfo
                         then givenInfo\<lparr>isAbleToSubmitEgressRequest := True\<rparr> else item)
                (dbEgressStore w)"
    by (simp add: enableEgressStoreSubmission_def lockAndUpdate_def Let_def)
  show "map ver (dbEgressStore (snd (enableEgressStoreSubmission w givenInfo))) =
          map ver (dbEgressStore w)"
    unfolding eff by (rule field_kept_by_update [OF d mem]) simp
qed

theorem ver_incremented_by_submit_only_witness:
  "(\<exists>descriptor w'.
      createEgressStore (exampleWorld []) alice exampleEnvironment = (Inr descriptor, w')
      \<and> map ver (dbEgressStore w') = [0])
   \<and> map ver (dbEgressStore (snd (notifySNS (exampleWorld [exampleInfo ''PROCESSED'' True])
                                     alice ''ws1''))) = [4]
   \<and> map ver (dbEgressStore (snd (terminateEgressStore
                                     (exampleWorld [exampleInfo ''PROCESSED'' True])
                                     alice ''ws1''))) = [3]
   \<and> map status (dbEgressStore (snd (terminateEgressStore
                                        (exampleWorld [exampleInfo ''PROCESSED'' True])
                                        alice ''ws1''))) = [''TERMINATED'']
   \<and> map ver (dbEgressStore (snd (enableEgressStoreSubmission
                                     (exampleWorld [exampleInfo ''CREATED'' False])
                                     (exampleInfo ''CREATED'' False)))) = [3]
   \<and> map isAbleToSubmitEgressRequest
         (dbEgressStore (snd (enableEgressStoreSubmission
                                (exampleWorld [exampleInfo ''CREATED'' False])
                                (exampleInfo ''CREATED'' False)))) = [True]"
proof -
  note main = ver_incremented_by_submit_only
  have table: "dbEgressStore (exampleWorld items) = items" for items
    by (simp add: exampleWorld_def)
  have d: "distinct (map id' (dbEgressStore (exampleWorld [exampleInfo st flag])))" for st flag
    by (simp add: table)
  obtain r w' where run: "createEgressStore (exampleWorld []) alice exampleEnvironment = (r, w')"
    by (cases "createEgressStore (exampleWorld []) alice exampleEnvironment")
  have "\<exists>descriptor. r = Inr descriptor"
    using run featureEnabled_exampleWorld [of "[]"]
    by (auto simp: createEgressStore_def Let_def exampleWorld_def createPath_def
          getKmsKeyIdArn_def getMemberAccountId_def addEgressStoreBucketPolicy_def
          getS3BucketAndPolicy_def audit_def)
  then obtain descriptor where
    ok: "createEgressStore (exampleWorld []) alice exampleEnvironment = (Inr descriptor, w')"
    using run by auto
  have "\<exists>item. dbEgressStore w' = dbEgressStore (exampleWorld []) @ [item]
               \<and> id' item = env_id exampleEnvironment \<and> ver item = 0"
    using main [where w = "exampleWorld []" and requestContext = alice
                 and environment = exampleEnvironment] ok
    by blast
  then have v0: "map ver (dbEgressStore w') = [0]" by (auto simp: table)
  have a: "\<exists>descriptor w'.
      createEgressStore (exampleWorld []) alice exampleEnvironment = (Inr descriptor, w')
      \<and> map ver (dbEgressStore w') = [0]"
    by (intro exI [of _ descriptor] exI [of _ w'] conjI ok v0)
  have e: "isAbleToSubmitEgressRequest (exampleInfo ''PROCESSED'' True)"
    by (simp add: exampleInfo_def)
  have f: "\<not> listObjectsFails (exampleWorld [exampleInfo ''PROCESSED'' True])"
          "\<not> snapshotFails (exampleWorld [exampleInfo ''PROCESSED'' True])"
          "\<not> clearPathFails (exampleWorld [exampleInfo ''PROCESSED'' True])"
          "\<not> policyStoreFails (exampleWorld [exampleInfo ''PROCESSED'' True])"
          "memberAccount (exampleWorld [exampleInfo ''PROCESSED'' True]) ''ws1''
             = Some ''111122223333''"
    by (simp_all add: exampleWorld_def)
  have t: "toUpperCase (status (exampleInfo ''PROCESSED'' True)) = PROCESSED_STATUS_CODE"
    using toUpperCase_examples(1) by (simp add: exampleInfo_def PROCESSED_STATUS_CODE_def)
  note inst = main [where w = "exampleWorld [exampleInfo ''PROCESSED'' True]"
               and requestContext = alice and environmentId = "''ws1''"
               and egressStoreInfo = "exampleInfo ''PROCESSED'' True"
               and memberAccountId = "''111122223333''"]
  have pre: "featureEnabled (exampleWorld [exampleInfo ''PROCESSED'' True])
       \<and> getEgressStoreInfo (exampleWorld [exampleInfo ''PROCESSED'' True]) ''ws1''
           = Inr (Some (exampleInfo ''PROCESSED'' True))
       \<and> (isAdmin alice \<or> uid alice = Some (createdBy (exampleInfo ''PROCESSED'' True)))
       \<and> distinct (map id' (dbEgressStore (exampleWorld [exampleInfo ''PROCESSED'' True])))"
    using featureEnabled_exampleWorld getEgressStoreInfo_exampleWorld example_allowed d
    by blast
  have "map ver (dbEgressStore (snd (notifySNS (exampleWorld [exampleInfo ''PROCESSED'' True])
                                     alice ''ws1''))) =
             map (\<lambda>item. if id' item = id' (exampleInfo ''PROCESSED'' True)
                          then ver item + 1 else ver item)
                 (dbEgressStore (exampleWorld [exampleInfo ''PROCESSED'' True]))"
    using inst pre e f by blast
  then have b: "map ver (dbEgressStore (snd (notifySNS (exampleWorld [exampleInfo ''PROCESSED'' True])
                                     alice ''ws1''))) = [4]"
    by (simp add: table exampleInfo_def)
  have "map ver (dbEgressStore (snd (terminateEgressStore
                                     (exampleWorld [exampleInfo ''PROCESSED'' True])
                                     alice ''ws1''))) =
             map ver (dbEgressStore (exampleWorld [exampleInfo ''PROCESSED'' True]))
        \<and> map status (dbEgressStore (snd (terminateEgressStore
                                        (exampleWorld [exampleInfo ''PROCESSED'' True])
                                        alice ''ws1''))) =
               map (\<lambda>item. if id' item = id' (exampleInfo ''PROCESSED'' True)
                            then TERMINATED_STATUS_CODE else status item)
                   (dbEgressStore (exampleWorld [exampleInfo ''PROCESSED'' True]))"
    using inst pre t f by blast
  then have c: "map ver (dbEgressStore (snd (terminateEgressStore
                                     (exampleWorld [exampleInfo ''PROCESSED'' True])
                                     alice ''ws1''))) = [3]"
    and c': "map status (dbEgressStore (snd (terminateEgressStore
                                        (exampleWorld [exampleInfo ''PROCESSED'' True])
                                        alice ''ws1''))) = [''TERMINATED'']"
    by (simp_all add: table exampleInfo_def TERMINATED_STATUS_CODE_def)
  note en = main [where w = "exampleWorld [exampleInfo ''CREATED'' False]"
               and givenInfo = "exampleInfo ''CREATED'' False"]
  have given: "distinct (map id' (dbEgressStore (exampleWorld [exampleInfo ''CREATED'' False])))
               \<and> exampleInfo ''CREATED'' False
                   \<in> set (dbEgressStore (exampleWorld [exampleInfo ''CREATED'' False]))"
              "\<exists>item \<in> set (dbEgressStore (exampleWorld [exampleInfo ''CREATED'' False])).
                 id' item = id' (exampleInfo ''CREATED'' False)"
    by (simp_all add: table)
  have "map ver (dbEgressStore (snd (enableEgressStoreSubmission
                                     (exampleWorld [exampleInfo ''CREATED'' False])
                                     (exampleInfo ''CREATED'' False)))) =
          map ver (dbEgressStore (exampleWorld [exampleInfo ''CREATED'' False]))"
    using en given(1) by blast
  then have g: "map ver (dbEgressStore (snd (enableEgressStoreSubmission
                                     (exampleWorld [exampleInfo ''CREATED'' False])
                                     (exampleInfo ''CREATED'' False)))) = [3]"
    by (simp add: table exampleInfo_def)
  have "dbEgressStore (snd (enableEgressStoreSubmission
                                (exampleWorld [exampleInfo ''CREATED'' False])
                                (exampleInfo ''CREATED'' False))) =
            map (\<lambda>item. if id' item = id' (exampleInfo ''CREATED'' False)
                         then (exampleInfo ''CREATED'' False)\<lparr>isAbleToSubmitEgressRequest := True\<rparr>
                         else item)
                (dbEgressStore (exampleWorld [exampleInfo ''CREATED'' False]))"
    using en given(2) by blast
  then have g': "map isAbleToSubmitEgressRequest
         (dbEgressStore (snd (enableEgressStoreSubmission
                                (exampleWorld [exampleInfo ''CREATED'' False])
                                (exampleInfo ''CREATED'' False)))) = [True]"
    by (simp add: table)
  show ?thesis by (intro conjI a b c c' g g')
qed

text \<open>
  Claim C4 as stated fails: a terminate that is accepted and sets the status to
  TERMINATED leaves \<^verbatim>\<open>ver\<close> at the value it had.
\<close>

theorem ver_not_incremented_by_terminate_counterexample:
  "map ver (dbEgressStore (exampleWorld [exampleInfo ''PROCESSED'' True])) = [3]
   \<and> map ver (dbEgressStore (snd (terminateEgressStore
                                     (exampleWorld [exampleInfo ''PROCESSED'' True]) alice ''ws1'')))
       = [3]
   \<and> map status (dbEgressStore (snd (terminateEgressStore
                                        (exampleWorld [exampleInfo ''PROCESSED'' True]) alice ''ws1'')))
       = [''TERMINATED'']"
proof -
  have f: "\<not> clearPathFails (exampleWorld [exampleInfo ''PROCESSED'' True])"
          "\<not> policyStoreFails (exampleWorld [exampleInfo ''PROCESSED'' True])"
          "memberAccount (exampleWorld [exampleInfo ''PROCESSED'' True]) ''ws1''
             = Some ''111122223333''"
    by (simp_all add: exampleWorld_def)
  have t: "toUpperCase (status (exampleInfo ''PROCESSED'' True)) = PROCESSED_STATUS_CODE
           \<or> (toUpperCase (status (exampleInfo ''PROCESSED'' True)) = CREATED_STATUS_CODE
               \<and> \<not> isAbleToSubmitEgressRequest (exampleInfo ''PROCESSED'' True))"
    using toUpperCase_examples(1) by (simp add: exampleInfo_def PROCESSED_STATUS_CODE_def)
  note eff = terminate_effect(3)
               [OF featureEnabled_exampleWorld getEgressStoreInfo_exampleWorld example_allowed
                   t f(1) f(3) f(2)]
  show ?thesis
    unfolding eff
    by (simp add: exampleWorld_def exampleInfo_def TERMINATED_STATUS_CODE_def)
qed

end
